theory Spec2Isabelle
  imports Main "HOL-Library.Word" "HOL-Library.AList"
begin

chapter \<open>The model\<close>

section \<open>Shared data of the proxy helpers\<close>

text \<open>
  A \<^verbatim>\<open>Buffer\<close> or \<^verbatim>\<open>Uint8Array\<close> is a list of bytes. JavaScript strings are modelled
  as \<^typ>\<open>string\<close>; the model covers strings of 8-bit characters.
\<close>

type_synonym byte = "8 word"
type_synonym buffer = "byte list"

text \<open>
  \<^verbatim>\<open>data[i]\<close> on a typed array: the byte when \<^verbatim>\<open>i\<close> is inside the array,
  \<^verbatim>\<open>undefined\<close> (here \<open>None\<close>) otherwise.
\<close>

definition byte_at :: "buffer \<Rightarrow> nat \<Rightarrow> byte option" where
  "byte_at data i = (if i < length data then Some (data ! i) else None)"

section \<open>JavaScript string primitives\<close>

text \<open>
  \<^verbatim>\<open>String.prototype.toLowerCase\<close> on code units below 256: the ASCII capitals and
  the Latin-1 capitals (192..222 but the multiplication sign 215) move up by 32.
\<close>

definition lower_char :: "char \<Rightarrow> char" where
  "lower_char c =
     (let n = (of_char c :: nat)
      in if (65 \<le> n \<and> n \<le> 90) \<or> (192 \<le> n \<and> n \<le> 222 \<and> n \<noteq> 215)
         then char_of (n + 32) else c)"

definition toLowerCase :: "string \<Rightarrow> string" where
  "toLowerCase s = map lower_char s"

text \<open>White space and line terminators among the code units below 256.\<close>

definition is_js_space :: "char \<Rightarrow> bool" where
  "is_js_space c = ((of_char c :: nat) \<in> {9, 10, 11, 12, 13, 32, 160})"

definition trim :: "string \<Rightarrow> string" where
  "trim s = rev (dropWhile is_js_space (rev (dropWhile is_js_space s)))"

text \<open>\<^verbatim>\<open>s.startsWith(p)\<close>, \<^verbatim>\<open>s.endsWith(p)\<close> and \<^verbatim>\<open>s.includes(p)\<close>.\<close>

definition startsWith :: "string \<Rightarrow> string \<Rightarrow> bool" where
  "startsWith s p = (take (length p) s = p)"

definition endsWith :: "string \<Rightarrow> string \<Rightarrow> bool" where
  "endsWith s p = (length p \<le> length s \<and> drop (length s - length p) s = p)"

fun js_includes :: "string \<Rightarrow> string \<Rightarrow> bool" where
  "js_includes [] p = (p = [])"
| "js_includes (c # cs) p = (startsWith (c # cs) p \<or> js_includes cs p)"

text \<open>
  \<^verbatim>\<open>s.replace(pat, rep)\<close> with a string pattern: the first occurrence of \<^verbatim>\<open>pat\<close> is
  replaced. The replacement strings used in this program hold no dollar sign, so no
  replacement pattern is expanded.
\<close>

fun replace_first :: "string \<Rightarrow> string \<Rightarrow> string \<Rightarrow> string" where
  "replace_first pat rep [] = (if pat = [] then rep else [])"
| "replace_first pat rep (c # cs) =
     (if startsWith (c # cs) pat then rep @ drop (length pat) (c # cs)
      else c # replace_first pat rep cs)"

section \<open>Decompression engine (\<^verbatim>\<open>decompressContent\<close>)\<close>

text \<open>
  The four decoders are library functions (zlib's \<^verbatim>\<open>gunzip\<close>, \<^verbatim>\<open>brotliDecompress\<close>
  and \<^verbatim>\<open>inflate\<close>, and \<^verbatim>\<open>fzstd\<close>'s \<^verbatim>\<open>decompress\<close>). They are parameters of
  the model: each maps the input to its output, or to \<open>None\<close> when the call rejects.
\<close>

datatype codec = Gzip | Brotli | Deflate | Zstd

record decoders =
  gunzipAsync :: "buffer \<Rightarrow> buffer option"
  brotliDecompressAsync :: "buffer \<Rightarrow> buffer option"
  inflateAsync :: "buffer \<Rightarrow> buffer option"
  fzstdDecompress :: "buffer \<Rightarrow> buffer option"

fun run_codec :: "decoders \<Rightarrow> codec \<Rightarrow> buffer \<Rightarrow> buffer option" where
  "run_codec ds Gzip b = gunzipAsync ds b"
| "run_codec ds Brotli b = brotliDecompressAsync ds b"
| "run_codec ds Deflate b = inflateAsync ds b"
| "run_codec ds Zstd b = fzstdDecompress ds b"

text \<open>
  Every function of the engine returns the decoder calls it made, in order, together
  with the buffer it returns. No result type carries an error: each decoder call sits in
  a \<^verbatim>\<open>try\<close> whose \<^verbatim>\<open>catch\<close> goes on to the next step.
\<close>

type_synonym decoded = "codec list \<times> buffer"

text \<open>The array \<^verbatim>\<open>methods\<close> of \<^verbatim>\<open>fallbackDecompression\<close>.\<close>

definition methods :: "(string \<times> codec) list" where
  "methods = [(''gzip'', Gzip), (''brotli'', Brotli), (''deflate'', Deflate)]"

text \<open>The loop \<^verbatim>\<open>for (const method of methods)\<close> and the final return of the input.\<close>

fun try_methods :: "decoders \<Rightarrow> buffer \<Rightarrow> string \<Rightarrow> (string \<times> codec) list \<Rightarrow> decoded" where
  "try_methods ds inputBuffer failedEncoding [] = ([], inputBuffer)"
| "try_methods ds inputBuffer failedEncoding ((name, c) # rest) =
     (if name \<noteq> replace_first ''br'' ''brotli'' failedEncoding
      then (case run_codec ds c inputBuffer of
              Some result \<Rightarrow> ([c], result)
            | None \<Rightarrow>
                (let (calls, result) = try_methods ds inputBuffer failedEncoding rest
                 in (c # calls, result)))
      else try_methods ds inputBuffer failedEncoding rest)"

definition fallbackDecompression :: "decoders \<Rightarrow> buffer \<Rightarrow> string \<Rightarrow> decoded" where
  "fallbackDecompression ds inputBuffer failedEncoding =
     (if failedEncoding \<noteq> ''zstd''
      then (case fzstdDecompress ds inputBuffer of
              Some result \<Rightarrow> ([Zstd], result)
            | None \<Rightarrow>
                (let (calls, result) = try_methods ds inputBuffer failedEncoding methods
                 in (Zstd # calls, result)))
      else try_methods ds inputBuffer failedEncoding methods)"

text \<open>
  \<^verbatim>\<open>autoDetectAndDecompress\<close>: gzip by its magic bytes, zstd by its magic bytes, then
  brotli, then deflate, then the input itself.
\<close>

definition auto_tail :: "decoders \<Rightarrow> buffer \<Rightarrow> decoded" where
  "auto_tail ds inputBuffer =
     (case brotliDecompressAsync ds inputBuffer of
        Some result \<Rightarrow> ([Brotli], result)
      | None \<Rightarrow>
          (case inflateAsync ds inputBuffer of
             Some result \<Rightarrow> ([Brotli, Deflate], result)
           | None \<Rightarrow> ([Brotli, Deflate], inputBuffer)))"

definition auto_zstd :: "decoders \<Rightarrow> buffer \<Rightarrow> decoded" where
  "auto_zstd ds inputBuffer =
     (if length inputBuffer > 4 \<and> byte_at inputBuffer 0 = Some 0x28
         \<and> byte_at inputBuffer 1 = Some 0xB5 \<and> byte_at inputBuffer 2 = Some 0x2F
         \<and> byte_at inputBuffer 3 = Some 0xFD
      then (case fzstdDecompress ds inputBuffer of
              Some result \<Rightarrow> ([Zstd], result)
            | None \<Rightarrow> (let (calls, result) = auto_tail ds inputBuffer in (Zstd # calls, result)))
      else auto_tail ds inputBuffer)"

definition autoDetectAndDecompress :: "decoders \<Rightarrow> buffer \<Rightarrow> decoded" where
  "autoDetectAndDecompress ds inputBuffer =
     (if length inputBuffer > 2 \<and> byte_at inputBuffer 0 = Some 0x1F
         \<and> byte_at inputBuffer 1 = Some 0x8B
      then (case gunzipAsync ds inputBuffer of
              Some result \<Rightarrow> ([Gzip], result)
            | None \<Rightarrow> (let (calls, result) = auto_zstd ds inputBuffer in (Gzip # calls, result)))
      else auto_zstd ds inputBuffer)"

text \<open>
  \<^verbatim>\<open>decompressContent\<close>. A missing or empty \<^verbatim>\<open>contentEncoding\<close> is falsy and goes to
  auto-detection. The \<^verbatim>\<open>switch\<close> runs the declared decoder inside \<^verbatim>\<open>try\<close>; its
  \<^verbatim>\<open>catch\<close> calls \<^verbatim>\<open>fallbackDecompression\<close> with the normalised encoding.
\<close>

definition declared_codec :: "string \<Rightarrow> codec option" where
  "declared_codec encoding =
     (if encoding = ''gzip'' then Some Gzip
      else if encoding = ''br'' then Some Brotli
      else if encoding = ''zstd'' then Some Zstd
      else if encoding = ''deflate'' then Some Deflate
      else None)"

definition decompressContent :: "decoders \<Rightarrow> buffer \<Rightarrow> string option \<Rightarrow> decoded" where
  "decompressContent ds inputBuffer contentEncoding =
     (case contentEncoding of
        None \<Rightarrow> autoDetectAndDecompress ds inputBuffer
      | Some ce \<Rightarrow>
          if ce = [] then autoDetectAndDecompress ds inputBuffer
          else
            (let encoding = trim (toLowerCase ce)
             in case declared_codec encoding of
                  None \<Rightarrow> autoDetectAndDecompress ds inputBuffer
                | Some c \<Rightarrow>
                    (case run_codec ds c inputBuffer of
                       Some result \<Rightarrow> ([c], result)
                     | None \<Rightarrow>
                         (let (calls, result) = fallbackDecompression ds inputBuffer encoding
                          in (c # calls, result)))))"

section \<open>Transport stream sniffer (\<^verbatim>\<open>detectTransportStream\<close>)\<close>

text \<open>
  The loop \<^verbatim>\<open>for (let i = 1; i <= 5; i++)\<close> with the counter \<^verbatim>\<open>syncByteCount\<close>
  it increments when \<^verbatim>\<open>offset < data.length && data[offset] === 0x47\<close>.
\<close>

function sync_loop :: "buffer \<Rightarrow> nat \<Rightarrow> nat \<Rightarrow> nat" where
  "sync_loop data i syncByteCount =
     (if i \<le> 5
      then sync_loop data (Suc i)
             (let offset = i * 188
              in if offset < length data \<and> byte_at data offset = Some 0x47
                 then Suc syncByteCount else syncByteCount)
      else syncByteCount)"
  by pat_completeness auto
termination
  by (relation "measure (\<lambda>(data, i, c). 6 - i)") auto

declare sync_loop.simps [simp del]

text \<open>
  The body of \<^verbatim>\<open>detectTransportStream\<close>. Nothing inside its \<^verbatim>\<open>try\<close> block raises
  (the reads are guarded by the length checks), so the \<^verbatim>\<open>catch\<close> branch has no path.
\<close>

definition detectTransportStream :: "buffer \<Rightarrow> bool" where
  "detectTransportStream data =
     (if length data < 188 then False
      else if byte_at data 0 \<noteq> Some 0x47 then False
      else sync_loop data 1 1 \<ge> 2)"

text \<open>
  The claim's words for the fallback: the decoders \<open>os\<close> are tried in order; the calls
  made are the failing ones and the first that succeeds; the result is that first
  success, or the input when all of them fail.
\<close>

definition try_in_order :: "decoders \<Rightarrow> buffer \<Rightarrow> codec list \<Rightarrow> decoded" where
  "try_in_order ds b os =
     (take (Suc (length (takeWhile (\<lambda>x. run_codec ds x b = None) os))) os,
      case List.find (\<lambda>x. run_codec ds x b \<noteq> None) os of
        None \<Rightarrow> b
      | Some x \<Rightarrow> the (run_codec ds x b))"

text \<open>Two sets of decoders for concrete runs.\<close>

definition sample_decoders :: decoders where
  "sample_decoders =
     \<lparr>gunzipAsync = (\<lambda>b. None), brotliDecompressAsync = (\<lambda>b. Some (rev b)),
      inflateAsync = (\<lambda>b. None), fzstdDecompress = (\<lambda>b. None)\<rparr>"

definition failing_decoders :: decoders where
  "failing_decoders =
     \<lparr>gunzipAsync = (\<lambda>b. None), brotliDecompressAsync = (\<lambda>b. None),
      inflateAsync = (\<lambda>b. None), fzstdDecompress = (\<lambda>b. None)\<rparr>"

section \<open>Decimal numerals\<close>

text \<open>
  A non-negative integer in a template literal is written in decimal (for the values
  below \<open>10^21\<close>, which covers every length and offset here).
\<close>

definition digit_char :: "nat \<Rightarrow> char" where
  "digit_char d = char_of (48 + d)"

function show_nat :: "nat \<Rightarrow> string" where
  "show_nat n = (if n < 10 then [digit_char n] else show_nat (n div 10) @ [digit_char (n mod 10)])"
  by pat_completeness auto
termination
  by (relation "measure id") auto

declare show_nat.simps [simp del]

section \<open>URL admission (\<^verbatim>\<open>validateUrl\<close>)\<close>

text \<open>
  The fields of a parsed \<^verbatim>\<open>URL\<close> object that this program reads. The parser itself
  (\<^verbatim>\<open>new URL(s)\<close> of the runtime) is a parameter: \<open>None\<close> when it throws.
\<close>

record URL =
  protocol :: string
  host :: string
  hostname :: string

type_synonym url_parser = "string \<Rightarrow> URL option"

record UrlValidationResult =
  valid :: bool
  reason :: "string option"
  result_hostname :: "string option"

text \<open>The options; an absent field takes the default of the destructuring pattern.\<close>

record UrlValidatorOptions =
  allowedDomains :: "string list option"
  maxUrlLength :: "nat option"
  requireProtocol :: "bool option"

definition default_options :: UrlValidatorOptions where
  "default_options = \<lparr>allowedDomains = None, maxUrlLength = None, requireProtocol = None\<rparr>"

definition validateUrl :: "url_parser \<Rightarrow> string \<Rightarrow> UrlValidatorOptions \<Rightarrow> UrlValidationResult" where
  "validateUrl new_URL url options =
     (let maxLen = (case maxUrlLength options of None \<Rightarrow> 2048 | Some n \<Rightarrow> n);
          allowed = (case allowedDomains options of None \<Rightarrow> [] | Some ds \<Rightarrow> ds);
          required = (case requireProtocol options of None \<Rightarrow> False | Some r \<Rightarrow> r)
      in if url = [] then
           \<lparr>valid = False, reason = Some ''URL cannot be empty'', result_hostname = None\<rparr>
         else if length url > maxLen then
           \<lparr>valid = False,
            reason = Some (''URL exceeds maximum length of '' @ show_nat maxLen @ '' characters''),
            result_hostname = None\<rparr>
         else if startsWith url ''/'' then
           \<lparr>valid = True, reason = None, result_hostname = None\<rparr>
         else if js_includes url ''://'' then
           (case new_URL url of
              None \<Rightarrow>
                \<lparr>valid = False, reason = Some ''Invalid URL format'', result_hostname = None\<rparr>
            | Some urlObj \<Rightarrow>
                if length allowed > 0 \<and> hostname urlObj \<notin> set allowed then
                  \<lparr>valid = False, reason = Some ''Domain not in allowed domains list'',
                   result_hostname = Some (hostname urlObj)\<rparr>
                else
                  \<lparr>valid = True, reason = None, result_hostname = Some (hostname urlObj)\<rparr>)
         else if required then
           \<lparr>valid = False, reason = Some ''URL must include protocol (http:// or https://)'',
            result_hostname = None\<rparr>
         else
           \<lparr>valid = True, reason = None, result_hostname = None\<rparr>)"

text \<open>
  What the runtime's parser returns on the inputs used in concrete runs, for instance
  \<^verbatim>\<open>new URL('ftp://h/x')\<close>; every other input is taken as unparsable.
\<close>

definition sample_parser :: url_parser where
  "sample_parser =
     map_of
       [(''ftp://h/x'', \<lparr>protocol = ''ftp:'', host = ''h'', hostname = ''h''\<rparr>),
        (''https://cdn.example/a.m3u8'',
           \<lparr>protocol = ''https:'', host = ''cdn.example'', hostname = ''cdn.example''\<rparr>),
        (''https://h/data.bin'', \<lparr>protocol = ''https:'', host = ''h'', hostname = ''h''\<rparr>),
        (''https://h/track.aac'', \<lparr>protocol = ''https:'', host = ''h'', hostname = ''h''\<rparr>),
        (''https://h/a.png'', \<lparr>protocol = ''https:'', host = ''h'', hostname = ''h''\<rparr>)]"

section \<open>Segment classifier (\<^verbatim>\<open>isDisguisedSegment\<close>)\<close>

text \<open>
  The entries of \<^verbatim>\<open>SEGMENT_PATTERNS\<close> are sequences of two kinds of item: a literal
  matched without regard to case (flag \<^verbatim>\<open>i\<close>) and \<^verbatim>\<open>\d+\<close>; two of them end with
  \<^verbatim>\<open>$\<close>. A pattern is kept as that sequence, written in lower case, and a flag for
  the anchor.
\<close>

datatype item = Lit string | Digits

record pattern =
  items :: "item list"
  at_end :: bool

definition is_digit :: "char \<Rightarrow> bool" where
  "is_digit c = (48 \<le> (of_char c :: nat) \<and> (of_char c :: nat) \<le> 57)"

text \<open>
  Whether the items match at the start of the text (and up to its end when anchored).
  \<^verbatim>\<open>\d+\<close> takes one digit and then either goes on or takes another: every split the
  backtracking matcher may try.
\<close>

fun match_here :: "item list \<Rightarrow> bool \<Rightarrow> string \<Rightarrow> bool" where
  "match_here [] anchored s = (\<not> anchored \<or> s = [])"
| "match_here (Lit l # rest) anchored s =
     (length l \<le> length s \<and> toLowerCase (take (length l) s) = l
      \<and> match_here rest anchored (drop (length l) s))"
| "match_here (Digits # rest) anchored [] = False"
| "match_here (Digits # rest) anchored (c # cs) =
     (is_digit c \<and> (match_here rest anchored cs \<or> match_here (Digits # rest) anchored cs))"

text \<open>\<^verbatim>\<open>pattern.test(path)\<close>: a match starting at some position of the text.\<close>

fun regex_test :: "pattern \<Rightarrow> string \<Rightarrow> bool" where
  "regex_test p [] = match_here (items p) (at_end p) []"
| "regex_test p (c # cs) = (match_here (items p) (at_end p) (c # cs) \<or> regex_test p cs)"

definition SEGMENT_PATTERNS :: "pattern list" where
  "SEGMENT_PATTERNS =
     [\<lparr>items = [Lit ''seg-'', Digits], at_end = False\<rparr>,
      \<lparr>items = [Lit ''segment-'', Digits], at_end = False\<rparr>,
      \<lparr>items = [Lit ''chunk-'', Digits], at_end = False\<rparr>,
      \<lparr>items = [Lit ''frag-'', Digits], at_end = False\<rparr>,
      \<lparr>items = [Lit ''part-'', Digits], at_end = False\<rparr>,
      \<lparr>items = [Lit ''-v'', Digits, Lit ''-a'', Digits], at_end = False\<rparr>,
      \<lparr>items = [Lit ''-f'', Digits, Lit ''-v'', Digits, Lit ''-a'', Digits], at_end = False\<rparr>,
      \<lparr>items = [Lit ''media-'', Digits], at_end = False\<rparr>,
      \<lparr>items = [Lit ''stream_'', Digits], at_end = False\<rparr>,
      \<lparr>items = [Lit ''_'', Digits, Lit ''.ts''], at_end = True\<rparr>,
      \<lparr>items = [Lit ''_'', Digits, Lit ''.m4s''], at_end = True\<rparr>]"

definition suspicious_extensions :: "string list" where
  "suspicious_extensions = [''.js'', ''.jpg'', ''.png'', ''.gif'', ''.css'', ''.html'']"

definition isDisguisedSegment :: "string \<Rightarrow> bool" where
  "isDisguisedSegment path =
     (if path = [] then False
      else
        (let pathLower = toLowerCase path;
             hasSegmentPattern = list_ex (\<lambda>p. regex_test p path) SEGMENT_PATTERNS;
             hasSuspiciousExtension = list_ex (\<lambda>ext. endsWith pathLower ext) suspicious_extensions
         in hasSegmentPattern \<and> hasSuspiciousExtension))"

section \<open>Content-type arbiter (\<^verbatim>\<open>determineContentType\<close>)\<close>

text \<open>
  \<^verbatim>\<open>originalContentType\<close> is \<open>None\<close> for \<^verbatim>\<open>null\<close> or \<^verbatim>\<open>undefined\<close>; the empty
  string is falsy as well. The block on segments with misleading extensions only writes
  a debug log entry and returns nothing, so it leaves no trace in the result.
\<close>

definition truthy :: "string option \<Rightarrow> bool" where
  "truthy v = (case v of None \<Rightarrow> False | Some s \<Rightarrow> s \<noteq> [])"

definition determineContentType :: "buffer \<Rightarrow> string option \<Rightarrow> string \<Rightarrow> string" where
  "determineContentType buffer originalContentType url =
     (let isTS = detectTransportStream buffer
      in if isTS then ''video/mp2t''
         else if endsWith (toLowerCase url) ''.m3u8''
                 \<and> (\<not> truthy originalContentType
                      \<or> \<not> js_includes (the originalContentType) ''application/vnd.apple.mpegurl'')
         then ''application/vnd.apple.mpegurl''
         else if truthy originalContentType then the originalContentType
         else ''application/octet-stream'')"

text \<open>
  The type detection of the buffered pipeline (\<^verbatim>\<open>detectedType\<close> in
  \<^verbatim>\<open>proxyRequest\<close>): the URL test for a disguised segment comes first, the arbiter is
  called only when it fails.
\<close>

definition detectedType :: "buffer \<Rightarrow> string option \<Rightarrow> string \<Rightarrow> string" where
  "detectedType buffer contentType url =
     (if isDisguisedSegment url then ''video/mp2t''
      else determineContentType buffer contentType url)"

text \<open>
  The decision order in the words of the specification: transport stream first, then
  the \<^verbatim>\<open>.m3u8\<close> ending (compared in lower case) against an upstream type that does not
  say \<^verbatim>\<open>application/vnd.apple.mpegurl\<close>, then the disguised segment, then the upstream
  type when present (and not empty), else \<^verbatim>\<open>application/octet-stream\<close>.
\<close>

definition spec_content_type :: "buffer \<Rightarrow> string option \<Rightarrow> string \<Rightarrow> string" where
  "spec_content_type buffer upstream url =
     (if detectTransportStream buffer then ''video/mp2t''
      else if endsWith (toLowerCase url) ''.m3u8''
              \<and> (case upstream of None \<Rightarrow> True
                  | Some t \<Rightarrow> \<not> js_includes t ''application/vnd.apple.mpegurl'')
      then ''application/vnd.apple.mpegurl''
      else if isDisguisedSegment url then ''video/mp2t''
      else (case upstream of
              None \<Rightarrow> ''application/octet-stream''
            | Some t \<Rightarrow> if t = [] then ''application/octet-stream'' else t))"


section \<open>Requests, upstream responses and client responses\<close>

text \<open>
  Header collections are association lists in insertion order. The response object
  stores a header under its lower-cased name; a value is a list of strings (the arrays
  of \<^verbatim>\<open>response.headers.raw()\<close>; a single string is a list of one).
\<close>

type_synonym headers = "(string \<times> string list) list"

definition setHeader :: "string \<Rightarrow> string list \<Rightarrow> headers \<Rightarrow> headers" where
  "setHeader name v hs = AList.update (toLowerCase name) v hs"

definition removeHeader :: "string \<Rightarrow> headers \<Rightarrow> headers" where
  "removeHeader name hs = AList.delete (toLowerCase name) hs"

definition getHeader :: "headers \<Rightarrow> string \<Rightarrow> string list option" where
  "getHeader hs name = map_of hs (toLowerCase name)"

text \<open>
  \<^verbatim>\<open>response.headers.get(name)\<close> on the upstream response: the values stored under
  the name, joined by a comma and a space; \<open>None\<close> for \<^verbatim>\<open>null\<close>. The names of
  \<^verbatim>\<open>raw()\<close> are lower-case and distinct; on other lists the entry written last
  counts, as it does after copying the entries one by one.
\<close>

fun join_values :: "string list \<Rightarrow> string" where
  "join_values [] = []"
| "join_values [v] = v"
| "join_values (v # w # vs) = v @ '', '' @ join_values (w # vs)"

definition raw_entry :: "headers \<Rightarrow> string \<Rightarrow> string list option" where
  "raw_entry raw name = map_of (rev (map (\<lambda>(k, v). (toLowerCase k, v)) raw)) name"

definition headers_get :: "headers \<Rightarrow> string \<Rightarrow> string option" where
  "headers_get raw name = map_option join_values (raw_entry raw name)"

record request =
  req_method :: string
  req_url :: string
  req_range :: "string option"

text \<open>
  The upstream response as the handler reads it: status, raw headers, whether
  \<^verbatim>\<open>response.body\<close> is non-null, the bytes of the body, and whether reading the body
  (\<^verbatim>\<open>arrayBuffer()\<close>, \<^verbatim>\<open>text()\<close>) succeeds.
\<close>

record upstream =
  up_status :: nat
  up_raw :: headers
  up_has_body :: bool
  up_body :: buffer
  up_readable :: bool

datatype fetch_result =
    FetchFailed bool string
  | Fetched upstream

text \<open>
  What is sent to the client. \<open>ErrorJson\<close> is the error envelope (code and message;
  the time stamp is left out), \<open>UpstreamError\<close> the text of an upstream error body
  (sent as JSON when it parses as JSON, as text otherwise).
\<close>

datatype body =
    Bytes buffer
  | Text string
  | ErrorJson nat string
  | UpstreamError string
  | NoBody

record response =
  res_status :: nat
  res_headers :: headers
  res_body :: body

text \<open>
  The end of one call of \<^verbatim>\<open>proxyRequest\<close>: a response together with the call of
  \<^verbatim>\<open>setCacheItem(key, buffer, size)\<close> it made, if any; or the hand-over to
  \<^verbatim>\<open>streamProxyRequest\<close> (which never calls the cache); or \<^verbatim>\<open>next(error)\<close>; or a
  return with nothing sent.
\<close>

datatype outcome =
    Responded response "(string \<times> buffer) option"
  | Streamed
  | NextError
  | NothingSent

text \<open>
  The collaborators that are not part of the handler: the environment switches, the
  worker pool's \<^verbatim>\<open>decompressWithWorker\<close> (\<open>None\<close> when it rejects), the playlist
  rewriter (\<open>None\<close> when it throws), the subtitle rewriter, UTF-8 decoding,
  \<^verbatim>\<open>getMimeType\<close>, \<^verbatim>\<open>generateCacheKey\<close> and the URL parser.
\<close>

record env =
  ENABLE_STREAMING :: bool
  STREAM_SIZE_THRESHOLD :: nat
  decompressWithWorker :: "buffer \<Rightarrow> string option \<Rightarrow> buffer option"
  processM3u8Content :: "string \<Rightarrow> string \<Rightarrow> string option"
  processVtt :: "string \<Rightarrow> string \<Rightarrow> string"
  utf8_decode :: "buffer \<Rightarrow> string"
  getMimeType :: "string \<Rightarrow> string option"
  generateCacheKey :: "request \<Rightarrow> string"
  new_URL :: url_parser

definition cors :: "headers \<Rightarrow> headers" where
  "cors hs =
     setHeader ''Access-Control-Expose-Headers''
       [''Content-Length, Content-Range, Content-Type, Accept-Ranges'']
     (setHeader ''Access-Control-Allow-Headers''
       [''Content-Type, Authorization, X-Requested-With, Range'']
     (setHeader ''Access-Control-Allow-Methods'' [''GET, POST, PUT, DELETE, OPTIONS, PATCH'']
     (setHeader ''Access-Control-Allow-Origin'' [''*''] hs)))"

section \<open>Cache hit with a range (\<^verbatim>\<open>proxyRequest\<close>)\<close>

text \<open>
  \<^verbatim>\<open>parseInt(s, 10)\<close> on a string of decimal digits (what the groups of the range
  pattern capture), as an exact integer (the runtime's numbers are exact below \<open>2^53\<close>,
  far above any buffer length).
\<close>

definition digit_val :: "char \<Rightarrow> nat" where
  "digit_val c = of_char c - 48"

definition parseInt_digits :: "string \<Rightarrow> int" where
  "parseInt_digits s = int (foldl (\<lambda>n c. 10 * n + digit_val c) 0 s)"

text \<open>
  \<^verbatim>\<open>range.match(/bytes=(\d+)-(\d+)?/)\<close>: the first position where \<^verbatim>\<open>bytes=\<close>, at
  least one digit and a hyphen follow one another; the groups are the digits before the
  hyphen and the digits after it, if any. Both repetitions are greedy, and giving back a
  digit never helps the hyphen to match.
\<close>

definition range_match_here :: "string \<Rightarrow> (string \<times> string option) option" where
  "range_match_here s =
     (if startsWith s ''bytes='' then
        (let rest = drop 6 s;
             g1 = takeWhile is_digit rest;
             after = dropWhile is_digit rest
         in if g1 \<noteq> [] \<and> startsWith after ''-'' then
              (let g2 = takeWhile is_digit (drop 1 after)
               in Some (g1, if g2 = [] then None else Some g2))
            else None)
      else None)"

fun range_match :: "string \<Rightarrow> (string \<times> string option) option" where
  "range_match [] = range_match_here []"
| "range_match (c # cs) =
     (case range_match_here (c # cs) of
        Some m \<Rightarrow> Some m
      | None \<Rightarrow> range_match cs)"

definition show_int :: "int \<Rightarrow> string" where
  "show_int i = (if i < 0 then ''-'' @ show_nat (nat (- i)) else show_nat (nat i))"

text \<open>\<^verbatim>\<open>data.slice(start, end)\<close> for \<open>0 \<le> start\<close> and \<open>0 \<le> end\<close>.\<close>

definition buffer_slice :: "buffer \<Rightarrow> int \<Rightarrow> int \<Rightarrow> buffer" where
  "buffer_slice data start end = take (nat end - nat start) (drop (nat start) data)"

definition cache_hit :: "string \<Rightarrow> string option \<Rightarrow> buffer \<Rightarrow> response" where
  "cache_hit url range_header data =
     (let contentType = determineContentType data None url;
          h0 = (if contentType \<noteq> [] then setHeader ''Content-Type'' [contentType] [] else []);
          h1 = cors (setHeader ''X-Cache'' [''HIT''] h0);
          full = \<lparr>res_status = 200, res_headers = h1, res_body = Bytes data\<rparr>
      in if truthy range_header then
           (case range_match (the range_header) of
              None \<Rightarrow> full
            | Some (g1, g2) \<Rightarrow>
                (let start = parseInt_digits g1;
                     end = (case g2 of
                              Some g \<Rightarrow> parseInt_digits g
                            | None \<Rightarrow> int (length data) - 1)
                 in if start \<ge> 0 \<and> end < int (length data) \<and> start \<le> end then
                      (let slice = buffer_slice data start (end + 1);
                           h2 = setHeader ''Content-Range''
                                  [''bytes '' @ show_int start @ ''-'' @ show_int end @ ''/''
                                     @ show_nat (length data)] h1;
                           h3 = setHeader ''Content-Length'' [show_nat (length slice)] h2
                       in \<lparr>res_status = 206, res_headers = h3, res_body = Bytes slice\<rparr>)
                    else full))
         else full)"


section \<open>The buffered pipeline (\<^verbatim>\<open>proxyRequest\<close>)\<close>

text \<open>
  \<^verbatim>\<open>parseInt(s, 10)\<close> on any string: leading white space, an optional sign, then the
  longest run of digits; \<open>None\<close> stands for \<^verbatim>\<open>NaN\<close>.
\<close>

definition parseInt :: "string \<Rightarrow> int option" where
  "parseInt s =
     (let t = dropWhile is_js_space s;
          negative = startsWith t ''-'' \<and> t \<noteq> [];
          u = (if t \<noteq> [] \<and> (startsWith t ''-'' \<or> startsWith t ''+'') then drop 1 t else t);
          ds = takeWhile is_digit u
      in if ds = [] then None
         else Some (if negative then - parseInt_digits ds else parseInt_digits ds))"

definition ct_includes :: "string option \<Rightarrow> string \<Rightarrow> bool" where
  "ct_includes contentType s = (case contentType of None \<Rightarrow> False | Some t \<Rightarrow> js_includes t s)"

definition isAudioSegment :: "string option \<Rightarrow> string \<Rightarrow> bool" where
  "isAudioSegment contentType url =
     (ct_includes contentType ''audio/mp4'' \<or> ct_includes contentType ''audio/aac''
      \<or> js_includes url ''.aac'' \<or> js_includes (toLowerCase url) ''mp4a.40'')"

definition isM3u8Playlist :: "string \<Rightarrow> bool" where
  "isM3u8Playlist path =
     (if path = [] then False
      else endsWith (toLowerCase path) ''.m3u8'' \<or> endsWith (toLowerCase path) ''.m3u'')"

definition isM3u8Content :: "string option \<Rightarrow> string \<Rightarrow> bool" where
  "isM3u8Content contentType url =
     (isM3u8Playlist url \<or> ct_includes contentType ''application/vnd.apple.mpegurl''
      \<or> ct_includes contentType ''application/x-mpegurl''
      \<or> endsWith (toLowerCase url) ''.m3u8'')"

text \<open>
  \<^verbatim>\<open>responseText.toUpperCase().includes('#EXTM3U')\<close>. Only the ASCII letters turn into
  the letters of the marker, so upper-casing those is enough.
\<close>

definition upper_ascii :: "char \<Rightarrow> char" where
  "upper_ascii c =
     (let n = (of_char c :: nat) in if 97 \<le> n \<and> n \<le> 122 then char_of (n - 32) else c)"

definition has_extm3u :: "string \<Rightarrow> bool" where
  "has_extm3u text = js_includes (map upper_ascii text) ''#EXTM3U''"

text \<open>The condition of the early hand-over to the stream handler.\<close>

definition fast_path :: "env \<Rightarrow> request \<Rightarrow> bool" where
  "fast_path e req =
     (let url = req_url req
      in ENABLE_STREAMING e \<and> req_method req = ''GET''
         \<and> (endsWith url ''.ts'' \<or> endsWith url ''.m3u8'' \<or> endsWith url ''.mp4''
              \<or> endsWith url ''.mp3'' \<or> endsWith url ''.m4s''
              \<or> js_includes url ''segment-'' \<or> isDisguisedSegment url))"

text \<open>The hand-over of large files, decided on the upstream \<^verbatim>\<open>Content-Length\<close>.\<close>

definition is_large :: "env \<Rightarrow> request \<Rightarrow> upstream \<Rightarrow> bool" where
  "is_large e req up =
     (let contentLength = headers_get (up_raw up) ''content-length''
      in ENABLE_STREAMING e \<and> truthy contentLength
         \<and> (case parseInt (the contentLength) of
               None \<Rightarrow> False
             | Some n \<Rightarrow> n > int (STREAM_SIZE_THRESHOLD e))
         \<and> req_method req = ''GET'')"

text \<open>
  The loop that forwards the upstream headers: \<^verbatim>\<open>connection\<close> and
  \<^verbatim>\<open>transfer-encoding\<close> are never copied, \<^verbatim>\<open>content-encoding\<close> only for an audio
  segment.
\<close>

definition not_forwarded :: "bool \<Rightarrow> string \<Rightarrow> bool" where
  "not_forwarded isAudio lowered =
     (if lowered = ''connection'' \<or> lowered = ''transfer-encoding'' then True
      else lowered = ''content-encoding'' \<and> \<not> isAudio)"

fun forward_headers :: "bool \<Rightarrow> headers \<Rightarrow> headers \<Rightarrow> headers" where
  "forward_headers isAudio [] hs = hs"
| "forward_headers isAudio ((key, v) # rest) hs =
     forward_headers isAudio rest
       (if not_forwarded isAudio (toLowerCase key) then hs else setHeader key v hs)"

definition error_response :: "nat \<Rightarrow> string \<Rightarrow> headers \<Rightarrow> response" where
  "error_response code message hs =
     \<lparr>res_status = code, res_headers = hs, res_body = ErrorJson code message\<rparr>"

text \<open>The branch for status 206.\<close>

definition partial_branch :: "upstream \<Rightarrow> headers \<Rightarrow> outcome" where
  "partial_branch up h3 =
     (let contentRange = headers_get (up_raw up) ''content-range'';
          h4 = (if truthy contentRange then setHeader ''Content-Range'' [the contentRange] h3
                else h3)
      in if up_readable up then
           Responded \<lparr>res_status = 206, res_headers = h4, res_body = Bytes (up_body up)\<rparr> None
         else
           Responded (error_response 500 ''Failed to process partial content'' h4) None)"

text \<open>
  The branch for an audio segment with status 200. It never sets the status (200 stays)
  and never touches the body.
\<close>

definition audio_branch :: "upstream \<Rightarrow> string option \<Rightarrow> headers \<Rightarrow> outcome" where
  "audio_branch up contentType h3 =
     (if up_readable up then
        (let h4 = (if truthy contentType then setHeader ''Content-Type'' [the contentType] h3
                   else h3)
         in Responded \<lparr>res_status = 200, res_headers = h4, res_body = Bytes (up_body up)\<rparr> None)
      else
        Responded (error_response 500 ''Failed to process audio segment'' h3) None)"

text \<open>
  The branch for playlists. When reading or rewriting throws, the handler reads the body
  a second time; the body of a fetched response can be read once only, so that attempt
  throws as well and the error envelope is sent.
\<close>

definition m3u8_branch :: "env \<Rightarrow> request \<Rightarrow> upstream \<Rightarrow> string option \<Rightarrow> headers \<Rightarrow> outcome" where
  "m3u8_branch e req up contentEncoding h3 =
     (if \<not> up_readable up then
        Responded (error_response 500 ''Failed to process M3U8 content'' h3) None
      else
        (let declared = (if truthy contentEncoding then contentEncoding else None);
             decompressedBuffer =
               (case decompressWithWorker e (up_body up) declared of
                  Some b \<Rightarrow> b
                | None \<Rightarrow> up_body up);
             responseText = utf8_decode e decompressedBuffer;
             h4 = removeHeader ''content-encoding''
                    (setHeader ''Content-Type'' [''application/vnd.apple.mpegurl''] h3)
         in if \<not> has_extm3u responseText then
              Responded \<lparr>res_status = 200, res_headers = h4, res_body = Bytes decompressedBuffer\<rparr>
                None
            else
              (case processM3u8Content e responseText (req_url req) of
                 Some processedContent \<Rightarrow>
                   Responded \<lparr>res_status = 200, res_headers = h4, res_body = Text processedContent\<rparr>
                     None
               | None \<Rightarrow>
                   Responded (error_response 500 ''Failed to process M3U8 content'' h3) None)))"

text \<open>
  The branch for subtitles. When \<^verbatim>\<open>response.text()\<close> throws, the \<^verbatim>\<open>catch\<close> block
  only logs and the handler returns without sending anything.
\<close>

definition vtt_branch :: "env \<Rightarrow> request \<Rightarrow> upstream \<Rightarrow> string option \<Rightarrow> headers \<Rightarrow> outcome" where
  "vtt_branch e req up contentEncoding h3 =
     (if up_readable up then
        (let responseText = utf8_decode e (up_body up);
             processedContent = processVtt e responseText (req_url req);
             h4 = setHeader ''Content-Type'' [''text/vtt''] h3;
             h5 = (if truthy contentEncoding then removeHeader ''content-encoding'' h4 else h4)
         in Responded \<lparr>res_status = 200, res_headers = h5, res_body = Text processedContent\<rparr> None)
      else NothingSent)"

text \<open>
  The branch for all other content, the only place that calls \<^verbatim>\<open>setCacheItem\<close>.
  When \<^verbatim>\<open>decompressWithWorker\<close> rejects, \<^verbatim>\<open>buffer\<close> is the body as received.
\<close>

definition general_branch ::
  "env \<Rightarrow> request \<Rightarrow> upstream \<Rightarrow> string option \<Rightarrow> string option \<Rightarrow> bool \<Rightarrow> headers \<Rightarrow> outcome" where
  "general_branch e req up contentType contentEncoding isAudio h3 =
     (if \<not> up_readable up then
        Responded (error_response 500 ''Failed to process response content'' h3) None
      else
        (let url = req_url req;
             buffer =
               (if truthy contentEncoding \<and> \<not> isAudio then
                  (case decompressWithWorker e (up_body up) contentEncoding of
                     Some b \<Rightarrow> b
                   | None \<Rightarrow> up_body up)
                else up_body up);
             detected = detectedType buffer contentType url;
             h4 = (if detected \<noteq> [] \<and> \<not> isAudio then setHeader ''Content-Type'' [detected] h3
                   else if truthy contentType then setHeader ''Content-Type'' [the contentType] h3
                   else (case getMimeType e url of
                           None \<Rightarrow> h3
                         | Some mimeType \<Rightarrow>
                             if mimeType \<noteq> [] then setHeader ''Content-Type'' [mimeType] h3
                             else h3));
             h5 = (if truthy contentEncoding \<and> \<not> isAudio
                   then removeHeader ''content-encoding'' h4 else h4);
             stored =
               (if req_method req = ''GET'' \<and> up_status up = 200 \<and> \<not> truthy (req_range req)
                then (if length buffer \<le> 10 * 1024 * 1024
                      then Some (generateCacheKey e req, buffer) else None)
                else None)
         in Responded \<lparr>res_status = up_status up, res_headers = h5, res_body = Bytes buffer\<rparr>
              stored))"

text \<open>Everything after the fetch, for a response that is not handed to the stream handler.\<close>

definition buffered :: "env \<Rightarrow> request \<Rightarrow> upstream \<Rightarrow> headers \<Rightarrow> outcome" where
  "buffered e req up h0 =
     (let url = req_url req;
          contentType = headers_get (up_raw up) ''content-type'';
          contentEncoding = headers_get (up_raw up) ''content-encoding'';
          isAudio = isAudioSegment contentType url;
          isM3u8 = isM3u8Content contentType url;
          h1 = forward_headers isAudio (up_raw up) h0;
          h2 = (if getHeader h1 ''Accept-Ranges'' = None \<and> (isAudio \<or> endsWith url ''.ts'')
                then setHeader ''Accept-Ranges'' [''bytes''] h1 else h1);
          h3 = cors h2
      in if up_status up \<ge> 400 then
           Responded
             \<lparr>res_status = up_status up, res_headers = h3,
              res_body = UpstreamError (if up_readable up then utf8_decode e (up_body up) else [])\<rparr>
             None
         else if up_status up = 206 then partial_branch up h3
         else if isAudio \<and> up_status up = 200 then audio_branch up contentType h3
         else if isM3u8 \<and> up_status up = 200 then m3u8_branch e req up contentEncoding h3
         else if ct_includes contentType ''text/vtt'' \<and> up_status up = 200 then
           vtt_branch e req up contentEncoding h3
         else if up_has_body up then
           general_branch e req up contentType contentEncoding isAudio h3
         else
           Responded \<lparr>res_status = up_status up, res_headers = h3, res_body = NoBody\<rparr> None)"

text \<open>
  \<^verbatim>\<open>proxyRequest\<close>. \<open>cachedItem\<close> is what \<^verbatim>\<open>getCacheItem\<close> returns for the key of the
  request (looked at for GET only), \<open>fetched\<close> what \<^verbatim>\<open>fetch\<close> does (looked at only when
  the handler gets that far); \<open>timeout\<close> is \<^verbatim>\<open>PROXY.REQUEST_TIMEOUT\<close>. The request
  headers sent upstream are not part of the result.
\<close>

definition proxyRequest ::
  "env \<Rightarrow> nat \<Rightarrow> request \<Rightarrow> buffer option \<Rightarrow> fetch_result \<Rightarrow> outcome" where
  "proxyRequest e timeout req cachedItem fetched =
     (let url = req_url req
      in if url = [] then NextError
         else if req_method req = ''GET'' \<and> cachedItem \<noteq> None then
           Responded (cache_hit url (req_range req) (the cachedItem)) None
         else
           (let h0 = (if req_method req = ''GET'' then setHeader ''X-Cache'' [''MISS''] [] else [])
            in case new_URL e url of
                 None \<Rightarrow> Responded (error_response 500 ''Invalid URL'' h0) None
               | Some targetUrl \<Rightarrow>
                   if fast_path e req then Streamed
                   else
                     (case fetched of
                        FetchFailed aborted message \<Rightarrow>
                          if aborted then
                            Responded
                              (error_response 504
                                 (''Request timed out after '' @ show_nat timeout @ ''ms'') h0)
                              None
                          else
                            Responded
                              (error_response 500
                                 (if message = [] then ''Failed to proxy request'' else message)
                                 h0)
                              None
                      | Fetched up \<Rightarrow>
                          if is_large e req up then Streamed else buffered e req up h0)))"


section \<open>Concrete collaborators for runs of the handler\<close>

text \<open>
  Two environments with streaming on and the default threshold. In the first the worker
  pool rejects every task. In the second \<^verbatim>\<open>decompressWithWorker\<close> decodes inline with
  \<^verbatim>\<open>decompressContent\<close> over decoders that all fail, so it hands back its input.
\<close>

definition rejecting_env :: env where
  "rejecting_env =
     \<lparr>ENABLE_STREAMING = True, STREAM_SIZE_THRESHOLD = 1048576,
      decompressWithWorker = (\<lambda>b enc. None),
      processM3u8Content = (\<lambda>text url. Some text),
      processVtt = (\<lambda>text url. text),
      utf8_decode = map (\<lambda>w. char_of (unat w)),
      getMimeType = (\<lambda>url. None),
      generateCacheKey = req_url,
      new_URL = sample_parser\<rparr>"



section \<open>Domain templates (\<^verbatim>\<open>generateHeadersForUrl\<close>)\<close>

text \<open>
  A \<^verbatim>\<open>Record<string, string>\<close> is an association list in insertion order: assigning
  to a key replaces its value in place or appends the key, \<^verbatim>\<open>delete\<close> removes it.
\<close>

type_synonym header_map = "(string \<times> string) list"

text \<open>
  A template: its pattern as the test it performs on a hostname (every pattern of the
  registry is a regular expression without the flag \<^verbatim>\<open>g\<close>, so the test has no state),
  its static headers, and its optional \<^verbatim>\<open>headersFn\<close>. The registry is a parameter of
  the functions below.
\<close>

record DomainTemplate =
  pattern_test :: "string \<Rightarrow> bool"
  template_headers :: header_map
  headersFn :: "(URL \<Rightarrow> header_map) option"

definition userAgents :: "string list" where
  "userAgents =
     [''Mozilla/5.0 (Windows NT 10.0; Win64; x64; rv:137.0) Gecko/20100101 Firefox/137.0'',
      ''Mozilla/5.0 (Macintosh; Intel Mac OS X 10_15_7) AppleWebKit/537.36 Chrome/121.0.0.0 Safari/537.36'',
      ''Mozilla/5.0 (X11; Linux x86_64) AppleWebKit/537.36 Chrome/119.0.0.0 Safari/537.36'',
      ''Mozilla/5.0 (Windows NT 10.0; Win64; x64) AppleWebKit/537.36 Chrome/114.0.0.0 Safari/537.36'']"

text \<open>
  \<^verbatim>\<open>getRandomUserAgent\<close>; \<open>pick\<close> is the value of
  \<^verbatim>\<open>Math.floor(Math.random() * userAgents.length)\<close>, one of 0, 1, 2, 3.
\<close>

definition getRandomUserAgent :: "nat \<Rightarrow> string" where
  "getRandomUserAgent pick = userAgents ! pick"

text \<open>
  \<^verbatim>\<open>findTemplateForDomain\<close>: the first template whose pattern matches, else the last
  entry of the registry; \<open>None\<close> is \<^verbatim>\<open>undefined\<close>, the last entry of an empty registry.
\<close>

definition findTemplateForDomain :: "DomainTemplate list \<Rightarrow> URL \<Rightarrow> DomainTemplate option" where
  "findTemplateForDomain domainTemplates url =
     (case List.find (\<lambda>t. pattern_test t (hostname url)) domainTemplates of
        Some t \<Rightarrow> Some t
      | None \<Rightarrow> if domainTemplates = [] then None else Some (last domainTemplates))"

text \<open>\<^verbatim>\<open>Object.assign(target, source)\<close>.\<close>

definition assign :: "header_map \<Rightarrow> header_map \<Rightarrow> header_map" where
  "assign target source = fold (\<lambda>(k, v). AList.update k v) source target"

text \<open>
  \<^verbatim>\<open>generateHeadersForUrl\<close> with the module's \<^verbatim>\<open>headerCache\<close> as explicit state:
  the headers returned and the cache afterwards. \<open>None\<close> is the \<^verbatim>\<open>TypeError\<close> raised on
  reading \<^verbatim>\<open>template.headers\<close> of \<^verbatim>\<open>undefined\<close>; it is raised before the cache is
  written.
\<close>

type_synonym headerCache = "string \<rightharpoonup> header_map"

definition generateHeadersForUrl ::
  "DomainTemplate list \<Rightarrow> nat \<Rightarrow> URL \<Rightarrow> headerCache \<Rightarrow> (header_map \<times> headerCache) option" where
  "generateHeadersForUrl domainTemplates pick url headerCache =
     (let cacheKey = hostname url
      in case headerCache cacheKey of
           Some cached \<Rightarrow> Some (cached, headerCache)
         | None \<Rightarrow>
             (case findTemplateForDomain domainTemplates url of
                None \<Rightarrow> None
              | Some template \<Rightarrow>
                  (let h1 = AList.update ''user-agent'' (getRandomUserAgent pick)
                              (template_headers template);
                       h2 = (case headersFn template of
                               None \<Rightarrow> h1
                             | Some f \<Rightarrow> assign h1 (f url));
                       h3 = AList.delete ''pragma'' (AList.delete ''cache-control'' h2)
                   in Some (h3, headerCache(cacheKey \<mapsto> h3)))))"

text \<open>
  A run of the process: the calls in order, each with its random pick and its URL, the
  cache threaded through; the list of what each call returned.
\<close>

fun run_calls ::
  "DomainTemplate list \<Rightarrow> (nat \<times> URL) list \<Rightarrow> headerCache \<Rightarrow> header_map option list" where
  "run_calls domainTemplates [] headerCache = []"
| "run_calls domainTemplates ((pick, url) # rest) headerCache =
     (case generateHeadersForUrl domainTemplates pick url headerCache of
        None \<Rightarrow> None # run_calls domainTemplates rest headerCache
      | Some (headers, headerCache') \<Rightarrow> Some headers # run_calls domainTemplates rest headerCache')"

text \<open>
  Two entries of the registry for concrete runs: the template for
  \<^verbatim>\<open>/frostbite27\.pro$/i\<close>, whose static headers hold \<^verbatim>\<open>cache-control\<close> and
  \<^verbatim>\<open>pragma\<close>, and the general default \<^verbatim>\<open>/.*/\<close>.
\<close>

definition sample_templates :: "DomainTemplate list" where
  "sample_templates =
     [\<lparr>pattern_test = (\<lambda>h. endsWith (toLowerCase h) ''frostbite27.pro''),
       template_headers =
         [(''user-agent'', ''Mozilla/5.0 (Windows NT 10.0; Win64; x64; rv:137.0) Gecko/20100101 Firefox/137.0''),
          (''accept'', ''*/*''),
          (''accept-language'', ''en-US,en;q=0.5''),
          (''sec-fetch-dest'', ''empty''),
          (''sec-fetch-mode'', ''cors''),
          (''sec-fetch-site'', ''cross-site''),
          (''cache-control'', ''no-cache''),
          (''pragma'', ''no-cache'')],
       headersFn = Some (\<lambda>url. [(''origin'', ''https://megacloud.blog''),
                                (''referer'', ''https://megacloud.blog/'')])\<rparr>,
      \<lparr>pattern_test = (\<lambda>h. True),
       template_headers =
         [(''user-agent'', ''Mozilla/5.0 (Windows NT 10.0; Win64; x64; rv:137.0) Gecko/20100101 Firefox/137.0''),
          (''accept'', ''*/*''),
          (''sec-fetch-dest'', ''empty''),
          (''sec-fetch-mode'', ''cors''),
          (''sec-fetch-site'', ''cross-site'')],
       headersFn = None\<rparr>]"


text \<open>A header map without the keys \<^verbatim>\<open>cache-control\<close> and \<^verbatim>\<open>pragma\<close>.\<close>

definition clean :: "header_map \<Rightarrow> bool" where
  "clean h \<longleftrightarrow> ''cache-control'' \<notin> fst ` set h \<and> ''pragma'' \<notin> fst ` set h"


section \<open>Subtitle rewriter (\<^verbatim>\<open>processVttContent\<close>)\<close>

text \<open>
  The image pattern \<^verbatim>\<open>/\b[^\s"']+?\.(jpg|jpeg|png|gif|webp)\b/gi\<close>.
  A word character is a letter, a digit or the underscore; \<^verbatim>\<open>\b\<close> holds between two
  neighbours of which exactly one is a word character (a missing neighbour is none).
\<close>

definition word_char :: "char \<Rightarrow> bool" where
  "word_char c =
     (let n = (of_char c :: nat)
      in (48 \<le> n \<and> n \<le> 57) \<or> (65 \<le> n \<and> n \<le> 90) \<or> (97 \<le> n \<and> n \<le> 122) \<or> n = 95)"

definition boundary :: "char option \<Rightarrow> char option \<Rightarrow> bool" where
  "boundary prev next =
     ((case prev of None \<Rightarrow> False | Some c \<Rightarrow> word_char c)
      \<noteq> (case next of None \<Rightarrow> False | Some c \<Rightarrow> word_char c))"

text \<open>The class \<^verbatim>\<open>[^\s"']\<close>.\<close>

definition url_char :: "char \<Rightarrow> bool" where
  "url_char c = (\<not> is_js_space c \<and> c \<noteq> CHR 0x22 \<and> c \<noteq> CHR 0x27)"

definition image_extensions :: "string list" where
  "image_extensions = [''jpg'', ''jpeg'', ''png'', ''gif'', ''webp'']"

text \<open>
  The alternatives after the dot, tried in order, each followed by \<^verbatim>\<open>\b\<close>: the length
  of the first extension that fits the start of the text and ends at a boundary.
\<close>

definition extension_here :: "string \<Rightarrow> nat option" where
  "extension_here s =
     map_option length
       (List.find
          (\<lambda>ext. length ext \<le> length s \<and> toLowerCase (take (length ext) s) = ext
                 \<and> boundary (Some (last ext))
                      (case drop (length ext) s of [] \<Rightarrow> None | c # cs \<Rightarrow> Some c))
          image_extensions)"

text \<open>
  After at least one character of the class: the lazy repetition first tries the dot and
  an extension here, and only then takes one more character of the class. The result is
  the length of what is still matched from this point.
\<close>

fun match_rest :: "string \<Rightarrow> nat option" where
  "match_rest [] = None"
| "match_rest (c # cs) =
     (case (if c = CHR ''.'' then extension_here cs else None) of
        Some n \<Rightarrow> Some (Suc n)
      | None \<Rightarrow> if url_char c then map_option Suc (match_rest cs) else None)"

text \<open>A match starting at this position, \<open>prev\<close> being the character in front of it.\<close>

definition match_at :: "char option \<Rightarrow> string \<Rightarrow> nat option" where
  "match_at prev s =
     (case s of
        [] \<Rightarrow> None
      | c # cs \<Rightarrow>
          if boundary prev (Some c) \<and> url_char c then map_option Suc (match_rest cs) else None)"

text \<open>
  \<^verbatim>\<open>content.match(imageRegex)\<close> with the flag \<^verbatim>\<open>g\<close>: all matches from left to
  right, each search starting where the last match ended; the empty list stands for
  \<^verbatim>\<open>null\<close>.
\<close>

fun image_matches :: "char option \<Rightarrow> string \<Rightarrow> string list" where
  "image_matches prev [] = []"
| "image_matches prev (c # cs) =
     (case match_at prev (c # cs) of
        None \<Rightarrow> image_matches (Some c) cs
      | Some n \<Rightarrow>
          take n (c # cs)
            # image_matches (Some (last (take n (c # cs)))) (drop (n - 1) cs))"

text \<open>\<^verbatim>\<open>[...new Set(matches)]\<close>: the first occurrence of each match, in order.\<close>

definition unique :: "string list \<Rightarrow> string list" where
  "unique xs = rev (remdups (rev xs))"

text \<open>
  \<^verbatim>\<open>s.replace(new RegExp(escapeRegExp(pat), 'g'), rep)\<close>: every occurrence of the
  literal \<^verbatim>\<open>pat\<close> (never empty here), from left to right, is replaced. The replacement
  is taken literally, which is what the code does for a proxy base URL and a parameter
  name without dollar sign (the encoded URL never holds one).
\<close>

fun replace_all :: "string \<Rightarrow> string \<Rightarrow> string \<Rightarrow> string" where
  "replace_all pat rep [] = []"
| "replace_all pat rep (c # cs) =
     (if pat \<noteq> [] \<and> startsWith (c # cs) pat
      then rep @ replace_all pat rep (drop (length pat - 1) cs)
      else c # replace_all pat rep cs)"

record VttHandlerOptions =
  proxyBaseUrl :: string
  targetUrl :: string
  urlParamName :: "string option"

text \<open>
  The runtime functions the rewriter calls: the URL parser, the resolution of a relative
  reference (\<^verbatim>\<open>new URL(ref, base).toString()\<close>) and \<^verbatim>\<open>encodeURIComponent\<close>; each
  gives \<open>None\<close> when it throws.
\<close>

record vtt_runtime =
  vtt_new_URL :: url_parser
  vtt_resolve :: "string \<Rightarrow> string \<Rightarrow> string option"
  vtt_encodeURIComponent :: "string \<Rightarrow> string option"

datatype vtt_error = InvalidTargetUrl | InvalidImageUrl | MalformedUri

text \<open>
  \<^verbatim>\<open>targetUrl.substring(0, targetUrl.lastIndexOf('/') + 1)\<close>: the target up to its last
  slash, empty when it has none.
\<close>

definition base_path :: "string \<Rightarrow> string" where
  "base_path target = rev (dropWhile (\<lambda>c. c \<noteq> CHR ''/'') (rev target))"

text \<open>The absolute URL of one image reference.\<close>

definition absolute_url :: "vtt_runtime \<Rightarrow> URL \<Rightarrow> string \<Rightarrow> string \<Rightarrow> vtt_error + string" where
  "absolute_url rt targetUrlObj basePath imageUrl =
     (if startsWith imageUrl ''http://'' \<or> startsWith imageUrl ''https://'' then Inr imageUrl
      else if startsWith imageUrl ''//'' then Inr (protocol targetUrlObj @ imageUrl)
      else if startsWith imageUrl ''/'' then
        Inr (protocol targetUrlObj @ ''//'' @ host targetUrlObj @ imageUrl)
      else (case vtt_resolve rt imageUrl basePath of
              None \<Rightarrow> Inl InvalidImageUrl
            | Some u \<Rightarrow> Inr u))"

text \<open>The proxied URL of one image reference.\<close>

definition proxy_url ::
  "vtt_runtime \<Rightarrow> VttHandlerOptions \<Rightarrow> URL \<Rightarrow> string \<Rightarrow> vtt_error + string" where
  "proxy_url rt options targetUrlObj imageUrl =
     (case absolute_url rt targetUrlObj (base_path (targetUrl options)) imageUrl of
        Inl e \<Rightarrow> Inl e
      | Inr absoluteUrl \<Rightarrow>
          (case vtt_encodeURIComponent rt absoluteUrl of
             None \<Rightarrow> Inl MalformedUri
           | Some encoded \<Rightarrow>
               Inr (proxyBaseUrl options @ ''?''
                    @ (case urlParamName options of None \<Rightarrow> ''url'' | Some p \<Rightarrow> p)
                    @ ''='' @ encoded)))"

text \<open>The loop over the unique image URLs, with \<^verbatim>\<open>processedContent\<close> as accumulator.\<close>

fun rewrite_images ::
  "vtt_runtime \<Rightarrow> VttHandlerOptions \<Rightarrow> URL \<Rightarrow> string list \<Rightarrow> string \<Rightarrow> vtt_error + string" where
  "rewrite_images rt options targetUrlObj [] processedContent = Inr processedContent"
| "rewrite_images rt options targetUrlObj (imageUrl # rest) processedContent =
     (case proxy_url rt options targetUrlObj imageUrl of
        Inl e \<Rightarrow> Inl e
      | Inr proxyUrl \<Rightarrow>
          rewrite_images rt options targetUrlObj rest
            (replace_all imageUrl proxyUrl processedContent))"

text \<open>The body of the \<^verbatim>\<open>try\<close> block, and the function with its \<^verbatim>\<open>catch\<close>.\<close>

definition vtt_try :: "vtt_runtime \<Rightarrow> string \<Rightarrow> VttHandlerOptions \<Rightarrow> vtt_error + string" where
  "vtt_try rt content options =
     (case vtt_new_URL rt (targetUrl options) of
        None \<Rightarrow> Inl InvalidTargetUrl
      | Some targetUrlObj \<Rightarrow>
          (let matches = image_matches None content
           in if matches = [] then Inr content
              else rewrite_images rt options targetUrlObj (unique matches) content))"

definition processVttContent :: "vtt_runtime \<Rightarrow> string \<Rightarrow> VttHandlerOptions \<Rightarrow> string" where
  "processVttContent rt content options =
     (case vtt_try rt content options of
        Inl e \<Rightarrow> content
      | Inr processed \<Rightarrow> processed)"

text \<open>
  A runtime for concrete runs: the sample parser, a resolution that appends the reference
  to a base ending in a slash and throws otherwise, and an encoder that leaves letters,
  digits, dots and hyphens alone and writes the colon and the slash as the runtime does.
\<close>

definition sample_encode_char :: "char \<Rightarrow> string" where
  "sample_encode_char c =
     (if c = CHR '':'' then ''%3A'' else if c = CHR ''/'' then ''%2F'' else [c])"

definition sample_runtime :: vtt_runtime where
  "sample_runtime =
     \<lparr>vtt_new_URL = sample_parser,
      vtt_resolve = (\<lambda>ref base. if base \<noteq> [] \<and> last base = CHR ''/'' then Some (base @ ref) else None),
      vtt_encodeURIComponent = (\<lambda>s. Some (concat (map sample_encode_char s)))\<rparr>"


chapter \<open>Properties\<close>

section \<open>Properties of the transport stream sniffer\<close>

lemma sync_loop_done: "5 < i \<Longrightarrow> sync_loop data i c = c"
  by (subst sync_loop.simps) simp

lemma sync_loop_step:
  "i \<le> 5 \<Longrightarrow> sync_loop data i c =
     sync_loop data (Suc i)
       (if i * 188 < length data \<and> byte_at data (i * 188) = Some 0x47 then Suc c else c)"
  by (subst sync_loop.simps) (simp add: Let_def)

lemma byte_at_in_range:
  "(off < length data \<and> byte_at data off = Some b) \<longleftrightarrow> byte_at data off = Some b"
  by (auto simp: byte_at_def)

lemma sync_loop_step':
  "i \<le> 5 \<Longrightarrow> sync_loop data i c =
     sync_loop data (Suc i) (if byte_at data (i * 188) = Some 0x47 then Suc c else c)"
  by (simp add: sync_loop_step byte_at_in_range)

lemma sync_loop_five:
  "sync_loop data 1 c =
     (let c1 = (if byte_at data 188 = Some 0x47 then Suc c else c);
          c2 = (if byte_at data 376 = Some 0x47 then Suc c1 else c1);
          c3 = (if byte_at data 564 = Some 0x47 then Suc c2 else c2);
          c4 = (if byte_at data 752 = Some 0x47 then Suc c3 else c3)
      in (if byte_at data 940 = Some 0x47 then Suc c4 else c4))"
proof -
  have 1: "sync_loop data 1 c = sync_loop data 2 (if byte_at data 188 = Some 0x47 then Suc c else c)" for c
    using sync_loop_step' [of 1 data c] by (simp add: numeral_2_eq_2)
  have 2: "sync_loop data 2 c = sync_loop data 3 (if byte_at data 376 = Some 0x47 then Suc c else c)" for c
    using sync_loop_step' [of 2 data c] by simp
  have 3: "sync_loop data 3 c = sync_loop data 4 (if byte_at data 564 = Some 0x47 then Suc c else c)" for c
    using sync_loop_step' [of 3 data c] by simp
  have 4: "sync_loop data 4 c = sync_loop data 5 (if byte_at data 752 = Some 0x47 then Suc c else c)" for c
    using sync_loop_step' [of 4 data c] by simp
  have 5: "sync_loop data 5 c = sync_loop data 6 (if byte_at data 940 = Some 0x47 then Suc c else c)" for c
    using sync_loop_step' [of 5 data c] by simp
  have 6: "sync_loop data 6 c = c" for c
    by (rule sync_loop_done) simp
  show ?thesis
    unfolding 1 2 3 4 5 6 Let_def ..
qed

lemma sync_loop_unrolled:
  "2 \<le> sync_loop data 1 1 \<longleftrightarrow>
     (\<exists>off \<in> {188, 376, 564, 752, 940}. byte_at data off = Some 0x47)"
  unfolding sync_loop_five Let_def by simp

text \<open>
  C2. The sniffer answers true exactly for the buffers of at least 188 bytes whose byte 0
  is 0x47 and which hold 0x47 at one of the offsets 188, 376, 564, 752, 940 inside the
  buffer. In particular a buffer shorter than 188 bytes that starts with 0x47 is
  negative, and a buffer with 0x47 at offsets 0 and 188 is positive.
\<close>

theorem detectTransportStream_iff:
  "(detectTransportStream B \<longleftrightarrow>
      188 \<le> length B \<and> byte_at B 0 = Some 0x47 \<and>
      (\<exists>off \<in> {188, 376, 564, 752, 940}. byte_at B off = Some 0x47))
   \<and> (byte_at B 0 = Some 0x47 \<and> length B < 188 \<longrightarrow> \<not> detectTransportStream B)
   \<and> (byte_at B 0 = Some 0x47 \<and> byte_at B 188 = Some 0x47 \<longrightarrow> detectTransportStream B)"
proof -
  have main: "detectTransportStream B \<longleftrightarrow>
      188 \<le> length B \<and> byte_at B 0 = Some 0x47 \<and>
      (\<exists>off \<in> {188, 376, 564, 752, 940}. byte_at B off = Some 0x47)"
    unfolding detectTransportStream_def sync_loop_unrolled by (simp add: not_less)
  have short: "byte_at B 0 = Some 0x47 \<and> length B < 188 \<longrightarrow> \<not> detectTransportStream B"
    by (simp add: detectTransportStream_def)
  have two: "byte_at B 0 = Some 0x47 \<and> byte_at B 188 = Some 0x47 \<longrightarrow> detectTransportStream B"
  proof
    assume h: "byte_at B 0 = Some 0x47 \<and> byte_at B 188 = Some 0x47"
    then have "188 \<le> length B"
      by (simp add: byte_at_def split: if_splits)
    moreover have "\<exists>off \<in> {188, 376, 564, 752, 940}. byte_at B off = Some 0x47"
      using h by simp
    ultimately show "detectTransportStream B"
      using h by (simp add: main)
  qed
  from main short two show ?thesis by (intro conjI)
qed

theorem detectTransportStream_iff_witness:
  "detectTransportStream (0x47 # replicate 187 0 @ [0x47])
   \<and> \<not> detectTransportStream (0x47 # replicate 186 0)"
proof
  let ?B = "0x47 # replicate 187 0 @ [0x47 :: byte]"
  have "byte_at ?B 0 = Some 0x47 \<and> byte_at ?B 188 = Some 0x47"
    by (simp add: byte_at_def nth_append)
  with detectTransportStream_iff [of ?B, THEN conjunct2, THEN conjunct2]
  show "detectTransportStream ?B" by (rule mp)
next
  let ?S = "0x47 # replicate 186 (0 :: byte)"
  have "byte_at ?S 0 = Some 0x47 \<and> length ?S < 188"
    by (simp add: byte_at_def)
  with detectTransportStream_iff [of ?S, THEN conjunct2, THEN conjunct1]
  show "\<not> detectTransportStream ?S" by (rule mp)
qed

section \<open>Properties of the decompression engine\<close>

lemma declared_codec_cases:
  "declared_codec e = Some c \<Longrightarrow>
     (e = ''gzip'' \<and> c = Gzip) \<or> (e = ''br'' \<and> c = Brotli) \<or>
     (e = ''zstd'' \<and> c = Zstd) \<or> (e = ''deflate'' \<and> c = Deflate)"
  by (simp add: declared_codec_def split: if_splits)

lemma replace_br:
  "replace_first ''br'' ''brotli'' ''gzip'' = ''gzip''"
  "replace_first ''br'' ''brotli'' ''br'' = ''brotli''"
  "replace_first ''br'' ''brotli'' ''zstd'' = ''zstd''"
  "replace_first ''br'' ''brotli'' ''deflate'' = ''deflate''"
  by (simp_all add: startsWith_def)

lemma try_methods_gzip:
  "try_methods ds b ''gzip'' methods = try_in_order ds b [Brotli, Deflate]"
  by (simp add: methods_def replace_br try_in_order_def del: replace_first.simps split: option.splits)

lemma try_methods_br:
  "try_methods ds b ''br'' methods = try_in_order ds b [Gzip, Deflate]"
  by (simp add: methods_def replace_br try_in_order_def del: replace_first.simps split: option.splits)

lemma try_methods_deflate:
  "try_methods ds b ''deflate'' methods = try_in_order ds b [Gzip, Brotli]"
  by (simp add: methods_def replace_br try_in_order_def del: replace_first.simps split: option.splits)

lemma try_methods_zstd:
  "try_methods ds b ''zstd'' methods = try_in_order ds b [Gzip, Brotli, Deflate]"
  by (simp add: methods_def replace_br try_in_order_def del: replace_first.simps split: option.splits)

lemma try_in_order_Cons:
  "try_in_order ds b (x # os) =
     (case run_codec ds x b of
        Some r \<Rightarrow> ([x], r)
      | None \<Rightarrow> (let (calls, r) = try_in_order ds b os in (x # calls, r)))"
  by (simp add: try_in_order_def split: option.splits)

lemma fallback_as_order:
  assumes "declared_codec e = Some c"
  shows "fallbackDecompression ds b e =
           try_in_order ds b (filter (\<lambda>x. x \<noteq> c) [Zstd, Gzip, Brotli, Deflate])"
proof -
  consider "e = ''gzip''" "c = Gzip" | "e = ''br''" "c = Brotli"
    | "e = ''zstd''" "c = Zstd" | "e = ''deflate''" "c = Deflate"
    using declared_codec_cases [OF assms] by blast
  then show ?thesis
  proof cases
    case 1
    then show ?thesis
      by (simp add: fallbackDecompression_def try_methods_gzip try_in_order_Cons [of _ _ Zstd] split: option.splits)
  next
    case 2
    then show ?thesis
      by (simp add: fallbackDecompression_def try_methods_br try_in_order_Cons [of _ _ Zstd] split: option.splits)
  next
    case 3
    then show ?thesis
      by (simp add: fallbackDecompression_def try_methods_zstd)
  next
    case 4
    then show ?thesis
      by (simp add: fallbackDecompression_def try_methods_deflate try_in_order_Cons [of _ _ Zstd] split: option.splits)
  qed
qed


lemma declared_codec_nonempty: "declared_codec (trim (toLowerCase [])) = None"
  by (simp add: declared_codec_def trim_def toLowerCase_def)

text \<open>
  C5. When the declared encoding is one of gzip, br, zstd, deflate (after lower-casing
  and trimming, as the code normalises it) and its decoder fails on the input, the
  decompressor then calls the other decoders in the order zstd, gzip, brotli, deflate,
  each at most once and never the one that failed, stops at the first success and returns
  its output; if all fail it returns the input buffer. No call is repeated.
\<close>

theorem decompressContent_fallback:
  assumes declared: "declared_codec (trim (toLowerCase ce)) = Some c"
    and failed: "run_codec ds c input = None"
  shows "(let os = filter (\<lambda>x. x \<noteq> c) [Zstd, Gzip, Brotli, Deflate];
              failing = takeWhile (\<lambda>x. run_codec ds x input = None) os
          in decompressContent ds input (Some ce) =
               (c # take (Suc (length failing)) os,
                case List.find (\<lambda>x. run_codec ds x input \<noteq> None) os of
                  None \<Rightarrow> input
                | Some x \<Rightarrow> the (run_codec ds x input)))
         \<and> distinct (fst (decompressContent ds input (Some ce)))"
proof -
  let ?os = "filter (\<lambda>x. x \<noteq> c) [Zstd, Gzip, Brotli, Deflate]"
  have ne: "ce \<noteq> []"
    using declared declared_codec_nonempty by auto
  have eq: "decompressContent ds input (Some ce) =
      (c # fst (try_in_order ds input ?os), snd (try_in_order ds input ?os))"
    using ne declared failed
    by (simp add: decompressContent_def Let_def fallback_as_order [OF declared]
        split: prod.splits)
  have d: "distinct (c # take n ?os)" for n
  proof -
    have "distinct ?os" by simp
    then have "distinct (take n ?os)" by (rule distinct_take)
    moreover have "c \<notin> set (take n ?os)"
      using in_set_takeD [of c n ?os] by auto
    ultimately show ?thesis by simp
  qed
  show ?thesis
    unfolding eq Let_def using d by (simp add: try_in_order_def)
qed

theorem decompressContent_fallback_witness:
  "decompressContent sample_decoders [1, 2, 3] (Some ''GZIP '') = ([Gzip, Zstd, Brotli], [3, 2, 1])
   \<and> decompressContent failing_decoders [1, 2, 3] (Some ''br'') = ([Brotli, Zstd, Gzip, Deflate], [1, 2, 3])"
proof
  have e: "declared_codec (trim (toLowerCase ''GZIP '')) = Some Gzip"
    by code_simp
  have f: "run_codec sample_decoders Gzip [1, 2, 3] = None"
    by (simp add: sample_decoders_def)
  show "decompressContent sample_decoders [1, 2, 3] (Some ''GZIP '') = ([Gzip, Zstd, Brotli], [3, 2, 1])"
    using decompressContent_fallback [OF e f]
    by (simp add: sample_decoders_def)
next
  have e: "declared_codec (trim (toLowerCase ''br'')) = Some Brotli"
    by code_simp
  have f: "run_codec failing_decoders Brotli [1, 2, 3] = None"
    by (simp add: failing_decoders_def)
  show "decompressContent failing_decoders [1, 2, 3] (Some ''br'') = ([Brotli, Zstd, Gzip, Deflate], [1, 2, 3])"
    using decompressContent_fallback [OF e f]
    by (simp add: failing_decoders_def)
qed


section \<open>Properties of URL admission\<close>

text \<open>
  C6 as stated asks that, when a protocol is required, every URL that parses and is not
  absolute http or https is rejected. The admission function looks for the substring
  \<^verbatim>\<open>://\<close> only and never reads the scheme: \<^verbatim>\<open>ftp://h/x\<close> is accepted with
  \<^verbatim>\<open>requireProtocol\<close> set.
\<close>

theorem validateUrl_scheme_counterexample:
  "requireProtocol (default_options\<lparr>requireProtocol := Some True\<rparr>) = Some True
   \<and> sample_parser ''ftp://h/x'' = Some \<lparr>protocol = ''ftp:'', host = ''h'', hostname = ''h''\<rparr>
   \<and> ''ftp:'' \<notin> {''http:'', ''https:''}
   \<and> valid (validateUrl sample_parser ''ftp://h/x''
               (default_options\<lparr>requireProtocol := Some True\<rparr>))"
  by (simp add: validateUrl_def default_options_def sample_parser_def startsWith_def)

text \<open>
  C6, amended. For every parser, input and option set:
  the empty URL is rejected; a URL longer than the configured maximum (2048 by
  default) is rejected; otherwise an input starting with a slash is accepted without a
  hostname, whatever the options; otherwise an input containing \<^verbatim>\<open>://\<close> is rejected
  when the parser throws, rejected (with its hostname) when the allow-list is non-empty
  and lacks its hostname, and accepted with its hostname in every other case, whatever
  its scheme; otherwise (no \<^verbatim>\<open>://\<close>) the input is rejected exactly when a protocol
  is required and accepted without a hostname when it is not.
\<close>

theorem validateUrl_cases:
  fixes new_URL :: url_parser and url :: string and options :: UrlValidatorOptions
  defines "maxLen \<equiv> (case maxUrlLength options of None \<Rightarrow> 2048 | Some n \<Rightarrow> n)"
    and "allowed \<equiv> (case allowedDomains options of None \<Rightarrow> [] | Some ds \<Rightarrow> ds)"
    and "required \<equiv> (case requireProtocol options of None \<Rightarrow> False | Some r \<Rightarrow> r)"
    and "res \<equiv> validateUrl new_URL url options"
  shows "(url = [] \<longrightarrow> \<not> valid res)
    \<and> (length url > maxLen \<longrightarrow> \<not> valid res)
    \<and> (url \<noteq> [] \<and> length url \<le> maxLen \<and> startsWith url ''/'' \<longrightarrow>
          res = \<lparr>valid = True, reason = None, result_hostname = None\<rparr>)
    \<and> (url \<noteq> [] \<and> length url \<le> maxLen \<and> \<not> startsWith url ''/'' \<and> js_includes url ''://'' \<longrightarrow>
          (case new_URL url of
             None \<Rightarrow> \<not> valid res \<and> reason res = Some ''Invalid URL format''
           | Some u \<Rightarrow>
               if allowed \<noteq> [] \<and> hostname u \<notin> set allowed
               then \<not> valid res \<and> result_hostname res = Some (hostname u)
               else res = \<lparr>valid = True, reason = None, result_hostname = Some (hostname u)\<rparr>))
    \<and> (url \<noteq> [] \<and> length url \<le> maxLen \<and> \<not> startsWith url ''/'' \<and> \<not> js_includes url ''://'' \<longrightarrow>
          (if required then \<not> valid res
           else res = \<lparr>valid = True, reason = None, result_hostname = None\<rparr>))"
proof -
  have 1: "url = [] \<longrightarrow> \<not> valid res"
    by (simp add: res_def validateUrl_def)
  have 2: "length url > maxLen \<longrightarrow> \<not> valid res"
    by (simp add: res_def maxLen_def validateUrl_def Let_def)
  have 3: "url \<noteq> [] \<and> length url \<le> maxLen \<and> startsWith url ''/'' \<longrightarrow>
          res = \<lparr>valid = True, reason = None, result_hostname = None\<rparr>"
    by (simp add: res_def maxLen_def validateUrl_def Let_def)
  have 4: "url \<noteq> [] \<and> length url \<le> maxLen \<and> \<not> startsWith url ''/'' \<and> js_includes url ''://'' \<longrightarrow>
          (case new_URL url of
             None \<Rightarrow> \<not> valid res \<and> reason res = Some ''Invalid URL format''
           | Some u \<Rightarrow>
               if allowed \<noteq> [] \<and> hostname u \<notin> set allowed
               then \<not> valid res \<and> result_hostname res = Some (hostname u)
               else res = \<lparr>valid = True, reason = None, result_hostname = Some (hostname u)\<rparr>)"
    by (auto simp: res_def maxLen_def allowed_def validateUrl_def Let_def split: option.splits)
  have 5: "url \<noteq> [] \<and> length url \<le> maxLen \<and> \<not> startsWith url ''/'' \<and> \<not> js_includes url ''://'' \<longrightarrow>
          (if required then \<not> valid res
           else res = \<lparr>valid = True, reason = None, result_hostname = None\<rparr>)"
    by (simp add: res_def maxLen_def required_def validateUrl_def Let_def)
  from 1 2 3 4 5 show ?thesis by (intro conjI)
qed


theorem validateUrl_cases_witness:
  "validateUrl sample_parser ''https://cdn.example/a.m3u8'' default_options
     = \<lparr>valid = True, reason = None, result_hostname = Some ''cdn.example''\<rparr>
   \<and> \<not> valid (validateUrl sample_parser ''ftp://h/x''
                 (default_options\<lparr>allowedDomains := Some [''cdn.example'']\<rparr>))
   \<and> \<not> valid (validateUrl sample_parser ''cdn.example/a''
                 (default_options\<lparr>requireProtocol := Some True\<rparr>))"
proof (intro conjI)
  let ?u = "''https://cdn.example/a.m3u8''"
  have pre: "?u \<noteq> [] \<and> length ?u \<le> (case maxUrlLength default_options of None \<Rightarrow> 2048 | Some n \<Rightarrow> n)
      \<and> \<not> startsWith ?u ''/'' \<and> js_includes ?u ''://''"
    by (simp add: startsWith_def default_options_def)
  note c = validateUrl_cases [where url = ?u and options = default_options and new_URL = sample_parser]
  from c [THEN conjunct2, THEN conjunct2, THEN conjunct2, THEN conjunct1, THEN mp, OF pre]
  show "validateUrl sample_parser ?u default_options
     = \<lparr>valid = True, reason = None, result_hostname = Some ''cdn.example''\<rparr>"
    by (simp add: default_options_def sample_parser_def)
next
  let ?u = "''ftp://h/x''"
  let ?o = "default_options\<lparr>allowedDomains := Some [''cdn.example'']\<rparr>"
  have pre: "?u \<noteq> [] \<and> length ?u \<le> (case maxUrlLength ?o of None \<Rightarrow> 2048 | Some n \<Rightarrow> n)
      \<and> \<not> startsWith ?u ''/'' \<and> js_includes ?u ''://''"
    by (simp add: startsWith_def default_options_def)
  note c = validateUrl_cases [where url = ?u and options = ?o and new_URL = sample_parser]
  from c [THEN conjunct2, THEN conjunct2, THEN conjunct2, THEN conjunct1, THEN mp, OF pre]
  show "\<not> valid (validateUrl sample_parser ?u ?o)"
    by (simp add: default_options_def sample_parser_def)
next
  let ?u = "''cdn.example/a''"
  let ?o = "default_options\<lparr>requireProtocol := Some True\<rparr>"
  have pre: "?u \<noteq> [] \<and> length ?u \<le> (case maxUrlLength ?o of None \<Rightarrow> 2048 | Some n \<Rightarrow> n)
      \<and> \<not> startsWith ?u ''/'' \<and> \<not> js_includes ?u ''://''"
    by (simp add: startsWith_def default_options_def)
  note c = validateUrl_cases [where url = ?u and options = ?o and new_URL = sample_parser]
  from c [THEN conjunct2, THEN conjunct2, THEN conjunct2, THEN conjunct2, THEN mp, OF pre]
  show "\<not> valid (validateUrl sample_parser ?u ?o)"
    by (simp add: default_options_def)
qed


section \<open>Properties of the content-type arbiter\<close>

lemma endsWith_last:
  assumes "endsWith s p" and "p \<noteq> []"
  shows "last s = last p"
proof -
  from assms have len: "length p \<le> length s" and d: "drop (length s - length p) s = p"
    by (simp_all add: endsWith_def)
  from assms(2) len have "length s - length p < length s"
    by (cases p) auto
  then have "last (drop (length s - length p) s) = last s"
    by (rule last_drop)
  with d show ?thesis by simp
qed

lemma disguised_not_m3u8:
  assumes "isDisguisedSegment url"
  shows "\<not> endsWith (toLowerCase url) ''.m3u8''"
proof
  assume m: "endsWith (toLowerCase url) ''.m3u8''"
  then have l: "last (toLowerCase url) = CHR ''8''"
    using endsWith_last [OF m] by simp
  from assms obtain ext where "ext \<in> set suspicious_extensions"
    and e: "endsWith (toLowerCase url) ext"
    by (auto simp: isDisguisedSegment_def Let_def list_ex_iff split: if_splits)
  then consider "ext = ''.js''" | "ext = ''.jpg''" | "ext = ''.png''" | "ext = ''.gif''"
    | "ext = ''.css''" | "ext = ''.html''"
    by (auto simp: suspicious_extensions_def)
  then show False
    using endsWith_last [OF e] l by cases auto
qed

lemma determineContentType_steps:
  "\<not> isDisguisedSegment url \<Longrightarrow>
     determineContentType buffer ct url = spec_content_type buffer ct url"
  by (cases ct) (auto simp: determineContentType_def spec_content_type_def truthy_def Let_def)

lemma detectedType_spec:
  "detectedType buffer ct url = spec_content_type buffer ct url"
proof (cases "isDisguisedSegment url")
  case True
  then show ?thesis
    using disguised_not_m3u8 [OF True]
    by (simp add: detectedType_def spec_content_type_def)
next
  case False
  then show ?thesis
    by (simp add: detectedType_def determineContentType_steps)
qed

text \<open>
  C3 as stated gives the arbiter a third step: a disguised segment is typed
  \<^verbatim>\<open>video/mp2t\<close>. \<^verbatim>\<open>determineContentType\<close> has no such step. For an empty buffer,
  the upstream type \<^verbatim>\<open>image/jpeg\<close> and the disguised segment
  \<^verbatim>\<open>https://h/seg-1.jpg\<close> it returns the upstream type, where the stated order
  gives \<^verbatim>\<open>video/mp2t\<close>.
\<close>

theorem determineContentType_counterexample:
  "\<not> detectTransportStream []
   \<and> \<not> endsWith (toLowerCase ''https://h/seg-1.jpg'') ''.m3u8''
   \<and> isDisguisedSegment ''https://h/seg-1.jpg''
   \<and> determineContentType [] (Some ''image/jpeg'') ''https://h/seg-1.jpg'' = ''image/jpeg''
   \<and> spec_content_type [] (Some ''image/jpeg'') ''https://h/seg-1.jpg'' = ''video/mp2t''"
  by code_simp


text \<open>
  C3, amended. For every buffer, upstream type and URL: \<^verbatim>\<open>determineContentType\<close>
  returns what the stated decision order returns whenever the URL is not a disguised
  segment (the ending \<^verbatim>\<open>.m3u8\<close> is compared in lower case, the upstream type counts
  as saying \<^verbatim>\<open>application/vnd.apple.mpegurl\<close> when it contains it, and an empty
  upstream type counts as absent); and the type detection of the buffered pipeline,
  which tests the URL for a disguised segment before it calls the arbiter, returns what
  the stated decision order returns for every triple.
\<close>

theorem determineContentType_order:
  "(\<not> isDisguisedSegment url \<longrightarrow>
      determineContentType buffer ct url = spec_content_type buffer ct url)
   \<and> detectedType buffer ct url = spec_content_type buffer ct url"
  using determineContentType_steps [of url buffer ct] detectedType_spec [of buffer ct url]
  by (intro conjI impI)

theorem determineContentType_order_witness:
  "determineContentType [] None ''https://h/a.M3U8'' = ''application/vnd.apple.mpegurl''
   \<and> detectedType [] (Some ''image/jpeg'') ''https://h/seg-1.jpg'' = ''video/mp2t''"
proof
  have nd: "\<not> isDisguisedSegment ''https://h/a.M3U8''"
    by code_simp
  have s: "spec_content_type [] None ''https://h/a.M3U8'' = ''application/vnd.apple.mpegurl''"
    by code_simp
  from determineContentType_order [of "''https://h/a.M3U8''" "[]" None, THEN conjunct1, THEN mp, OF nd]
  show "determineContentType [] None ''https://h/a.M3U8'' = ''application/vnd.apple.mpegurl''"
    unfolding s .
next
  have s: "spec_content_type [] (Some ''image/jpeg'') ''https://h/seg-1.jpg'' = ''video/mp2t''"
    by code_simp
  from determineContentType_order [of "''https://h/seg-1.jpg''" "[]" "Some ''image/jpeg''", THEN conjunct2]
  show "detectedType [] (Some ''image/jpeg'') ''https://h/seg-1.jpg'' = ''video/mp2t''"
    unfolding s .
qed


section \<open>Properties of the cache hit path\<close>

lemma is_digit_digit_char: "d < 10 \<Longrightarrow> is_digit (digit_char d)"
  by (simp add: is_digit_def digit_char_def)

lemma digit_val_digit_char: "d < 10 \<Longrightarrow> digit_val (digit_char d) = d"
  by (simp add: digit_val_def digit_char_def)

lemma show_nat_digits: "\<forall>c \<in> set (show_nat n). is_digit c"
proof (induction n rule: show_nat.induct)
  case (1 n)
  show ?case
  proof (cases "n < 10")
    case True
    then show ?thesis
      by (subst show_nat.simps) (simp add: is_digit_digit_char)
  next
    case False
    with 1 show ?thesis
      by (subst show_nat.simps) (simp add: is_digit_digit_char)
  qed
qed

lemma show_nat_nonempty: "show_nat n \<noteq> []"
  by (subst show_nat.simps) simp

lemma parse_show_nat: "foldl (\<lambda>n c. 10 * n + digit_val c) 0 (show_nat n) = n"
proof (induction n rule: show_nat.induct)
  case (1 n)
  show ?case
  proof (cases "n < 10")
    case True
    then show ?thesis
      by (subst show_nat.simps) (simp add: digit_val_digit_char)
  next
    case False
    with 1 show ?thesis
      by (subst show_nat.simps) (simp add: digit_val_digit_char)
  qed
qed

lemma parseInt_show_nat: "parseInt_digits (show_nat n) = int n"
  by (simp add: parseInt_digits_def parse_show_nat)

lemma takeWhile_digits_stop:
  assumes "\<forall>c \<in> set ds. is_digit c" and "rest = [] \<or> \<not> is_digit (hd rest)"
  shows "takeWhile is_digit (ds @ rest) = ds" and "dropWhile is_digit (ds @ rest) = rest"
  using assms by (induction ds) (auto simp: takeWhile_eq_Nil_iff dropWhile_eq_self_iff
      intro: hd_in_set)

lemma hyphen_not_digit: "\<not> is_digit CHR ''-''"
  by (simp add: is_digit_def)

lemma range_match_here_canonical:
  assumes "\<forall>c \<in> set da. is_digit c" "da \<noteq> []" "\<forall>c \<in> set db. is_digit c" "db \<noteq> []"
  shows "range_match_here (''bytes='' @ da @ ''-'' @ db) = Some (da, Some db)"
proof -
  have 1: "takeWhile is_digit (da @ CHR ''-'' # db) = da"
    and 2: "dropWhile is_digit (da @ CHR ''-'' # db) = CHR ''-'' # db"
    using takeWhile_digits_stop [of da "CHR ''-'' # db"] assms(1) hyphen_not_digit by simp_all
  have 3: "takeWhile is_digit db = db"
    using assms(3) by (simp add: takeWhile_eq_all_conv)
  show ?thesis
    using assms(2,4) by (simp add: range_match_here_def startsWith_def 1 2 3 Let_def)
qed

lemma range_match_canonical:
  "range_match (''bytes='' @ show_nat a @ ''-'' @ show_nat b) = Some (show_nat a, Some (show_nat b))"
  using range_match_here_canonical [OF show_nat_digits show_nat_nonempty show_nat_digits show_nat_nonempty, of a b]
  by simp


lemma header_names:
  "toLowerCase ''Content-Range'' = ''content-range''"
  "toLowerCase ''Content-Length'' = ''content-length''"
  "toLowerCase ''Content-Type'' = ''content-type''"
  "toLowerCase ''X-Cache'' = ''x-cache''"
  "toLowerCase ''Accept-Ranges'' = ''accept-ranges''"
  "toLowerCase ''Access-Control-Allow-Origin'' = ''access-control-allow-origin''"
  "toLowerCase ''Access-Control-Allow-Methods'' = ''access-control-allow-methods''"
  "toLowerCase ''Access-Control-Allow-Headers'' = ''access-control-allow-headers''"
  "toLowerCase ''Access-Control-Expose-Headers'' = ''access-control-expose-headers''"
  "toLowerCase ''content-encoding'' = ''content-encoding''"
  "toLowerCase ''content-type'' = ''content-type''"
  by code_simp+

lemma getHeader_setHeader:
  "getHeader (setHeader k v hs) n = (if toLowerCase n = toLowerCase k then Some v else getHeader hs n)"
  by (simp add: getHeader_def setHeader_def update_conv')


lemma getHeader_Nil: "getHeader [] n = None"
  by (simp add: getHeader_def)

lemma getHeader_cors:
  "toLowerCase n \<notin> {''access-control-allow-origin'', ''access-control-allow-methods'',
      ''access-control-allow-headers'', ''access-control-expose-headers''}
   \<Longrightarrow> getHeader (cors hs) n = getHeader hs n"
  by (simp add: cors_def getHeader_setHeader header_names)

lemma take_drop_indices:
  "a + n \<le> length B \<Longrightarrow> take n (drop a B) = map ((!) B) [a..<a + n]"
proof (rule nth_equalityI)
  assume le: "a + n \<le> length B"
  show "length (take n (drop a B)) = length (map ((!) B) [a..<a + n])"
    using le by simp
  fix i
  assume "i < length (take n (drop a B))"
  then have i: "i < n" by simp
  then show "take n (drop a B) ! i = map ((!) B) [a..<a + n] ! i"
    using le by (simp add: nth_map_upt del: upt_Suc)
qed

lemma slice_as_indices:
  assumes "a \<le> b" "b < length B"
  shows "buffer_slice B (int a) (int b + 1) = map ((!) B) [a..<Suc b]"
proof -
  have "a + (Suc b - a) \<le> length B" "a + (Suc b - a) = Suc b"
    using assms by simp_all
  with take_drop_indices [of a "Suc b - a" B]
  have "take (Suc b - a) (drop a B) = map ((!) B) [a..<Suc b]"
    by simp
  moreover have "nat (int b + 1) = Suc b" by simp
  ultimately show ?thesis
    by (simp add: buffer_slice_def del: upt_Suc)
qed


lemma cache_hit_canonical:
  fixes a b :: nat
  defines "hdr \<equiv> ''bytes='' @ show_nat a @ ''-'' @ show_nat b"
  shows "a \<le> b \<and> b < length B \<Longrightarrow>
           res_status (cache_hit url (Some hdr) B) = 206
           \<and> res_body (cache_hit url (Some hdr) B) = Bytes (map ((!) B) [a..<Suc b])
           \<and> getHeader (res_headers (cache_hit url (Some hdr) B)) ''Content-Range''
               = Some [''bytes '' @ show_nat a @ ''-'' @ show_nat b @ ''/'' @ show_nat (length B)]"
    and "\<not> (a \<le> b \<and> b < length B) \<Longrightarrow>
           res_status (cache_hit url (Some hdr) B) = 200
           \<and> res_body (cache_hit url (Some hdr) B) = Bytes B
           \<and> getHeader (res_headers (cache_hit url (Some hdr) B)) ''Content-Range'' = None"
proof -
  have t: "truthy (Some hdr)"
    by (simp add: truthy_def hdr_def)
  have m: "range_match hdr = Some (show_nat a, Some (show_nat b))"
    unfolding hdr_def by (rule range_match_canonical)
  have si: "show_int (int n) = show_nat n" for n
    by (simp add: show_int_def)
  {
    assume ok: "a \<le> b \<and> b < length B"
    then have sl: "buffer_slice B (int a) (int b + 1) = map ((!) B) [a..<Suc b]"
      by (simp add: slice_as_indices)
    from ok show "res_status (cache_hit url (Some hdr) B) = 206
           \<and> res_body (cache_hit url (Some hdr) B) = Bytes (map ((!) B) [a..<Suc b])
           \<and> getHeader (res_headers (cache_hit url (Some hdr) B)) ''Content-Range''
               = Some [''bytes '' @ show_nat a @ ''-'' @ show_nat b @ ''/'' @ show_nat (length B)]"
      by (simp add: cache_hit_def Let_def t m parseInt_show_nat si sl
          getHeader_setHeader header_names del: upt_Suc)
  }
  {
    assume bad: "\<not> (a \<le> b \<and> b < length B)"
    then show "res_status (cache_hit url (Some hdr) B) = 200
           \<and> res_body (cache_hit url (Some hdr) B) = Bytes B
           \<and> getHeader (res_headers (cache_hit url (Some hdr) B)) ''Content-Range'' = None"
      by (auto simp: cache_hit_def Let_def t m parseInt_show_nat
          getHeader_setHeader getHeader_cors getHeader_Nil header_names)
  }
qed

lemma range_match_here_needs_b: "range_match_here s \<noteq> None \<Longrightarrow> s \<noteq> [] \<and> hd s = CHR ''b''"
  by (cases s) (auto simp: range_match_here_def startsWith_def split: if_splits)

lemma range_match_no_b: "CHR ''b'' \<notin> set s \<Longrightarrow> range_match s = None"
proof (induction s)
  case Nil
  have "range_match_here [] = None"
    by (simp add: range_match_here_def startsWith_def)
  then show ?case by simp
next
  case (Cons c s)
  then have "c \<noteq> CHR ''b''" by auto
  then have "range_match_here (c # s) = None"
    using range_match_here_needs_b [of "c # s"] by (cases "range_match_here (c # s)") auto
  with Cons show ?case by simp
qed

lemma digit_not_b: "is_digit c \<Longrightarrow> c \<noteq> CHR ''b''"
  by (auto simp: is_digit_def)

lemma range_match_negative:
  "range_match (''bytes=-'' @ show_nat a @ ''-'' @ show_nat b) = None"
proof -
  let ?rest = "CHR ''-'' # show_nat a @ CHR ''-'' # show_nat b"
  have nb: "CHR ''b'' \<notin> set ?rest"
    using show_nat_digits [of a] show_nat_digits [of b] digit_not_b by auto
  have h0: "range_match_here (''bytes='' @ ?rest) = None"
    by (simp add: range_match_here_def startsWith_def hyphen_not_digit)
  have h: "range_match_here (''ytes='' @ ?rest) = None" "range_match_here (''tes='' @ ?rest) = None"
    "range_match_here (''es='' @ ?rest) = None" "range_match_here (''s='' @ ?rest) = None"
    "range_match_here (''='' @ ?rest) = None"
    by (simp_all add: range_match_here_def startsWith_def)
  have "range_match (''bytes='' @ ?rest) = range_match ?rest"
    using h0 h by simp
  with range_match_no_b [OF nb] show ?thesis by simp
qed


lemma cache_hit_negative:
  "res_status (cache_hit url (Some (''bytes=-'' @ show_nat a @ ''-'' @ show_nat b)) B) = 200
   \<and> res_body (cache_hit url (Some (''bytes=-'' @ show_nat a @ ''-'' @ show_nat b)) B) = Bytes B
   \<and> getHeader (res_headers (cache_hit url (Some (''bytes=-'' @ show_nat a @ ''-'' @ show_nat b)) B))
        ''Content-Range'' = None"
proof -
  have t: "truthy (Some (''bytes=-'' @ show_nat a @ ''-'' @ show_nat b))"
    by (simp add: truthy_def)
  show ?thesis
    unfolding cache_hit_def Let_def
    by (simp only: t range_match_negative option.sel option.case if_True)
      (simp add: getHeader_setHeader getHeader_cors getHeader_Nil header_names)
qed

text \<open>
  C1. A GET request whose cache lookup hits a body \<open>B\<close> is answered from the cache with
  no cache write. With the Range header \<^verbatim>\<open>bytes=a-b\<close> (both in decimal) and
  \<open>a \<le> b < length B\<close> the answer has status 206, the bytes \<open>B[a..b]\<close> inclusive and
  \<^verbatim>\<open>Content-Range: bytes a-b/size\<close>; when \<open>b\<close> is not below the size or \<open>a\<close> is above
  \<open>b\<close> the answer is the full body with status 200 and no \<^verbatim>\<open>Content-Range\<close>. A
  negative start, written \<^verbatim>\<open>bytes=-a-b\<close>, does not match the range pattern and gets the
  full body as well.
\<close>

theorem cache_hit_range:
  assumes get: "req_method req = ''GET''" and url: "req_url req \<noteq> []"
  shows "(req_range req = Some (''bytes='' @ show_nat a @ ''-'' @ show_nat b) \<longrightarrow>
      (\<exists>r. proxyRequest e timeout req (Some B) fetched = Responded r None \<and>
         (if a \<le> b \<and> b < length B
          then res_status r = 206 \<and> res_body r = Bytes (map ((!) B) [a..<Suc b]) \<and>
               getHeader (res_headers r) ''Content-Range''
                 = Some [''bytes '' @ show_nat a @ ''-'' @ show_nat b @ ''/'' @ show_nat (length B)]
          else res_status r = 200 \<and> res_body r = Bytes B \<and>
               getHeader (res_headers r) ''Content-Range'' = None)))
    \<and> (req_range req = Some (''bytes=-'' @ show_nat a @ ''-'' @ show_nat b) \<longrightarrow>
      (\<exists>r. proxyRequest e timeout req (Some B) fetched = Responded r None \<and>
         res_status r = 200 \<and> res_body r = Bytes B \<and>
         getHeader (res_headers r) ''Content-Range'' = None))"
proof (intro conjI impI)
  let ?r = "cache_hit (req_url req) (req_range req) B"
  have p: "proxyRequest e timeout req (Some B) fetched = Responded ?r None"
    using get url by (simp add: proxyRequest_def)
  {
    assume rng: "req_range req = Some (''bytes='' @ show_nat a @ ''-'' @ show_nat b)"
    have "if a \<le> b \<and> b < length B
      then res_status ?r = 206 \<and> res_body ?r = Bytes (map ((!) B) [a..<Suc b]) \<and>
           getHeader (res_headers ?r) ''Content-Range''
             = Some [''bytes '' @ show_nat a @ ''-'' @ show_nat b @ ''/'' @ show_nat (length B)]
      else res_status ?r = 200 \<and> res_body ?r = Bytes B \<and>
           getHeader (res_headers ?r) ''Content-Range'' = None"
      using cache_hit_canonical [of a b B "req_url req"] unfolding rng
      by (simp del: upt_Suc)
    with p show "\<exists>r. proxyRequest e timeout req (Some B) fetched = Responded r None \<and>
         (if a \<le> b \<and> b < length B
          then res_status r = 206 \<and> res_body r = Bytes (map ((!) B) [a..<Suc b]) \<and>
               getHeader (res_headers r) ''Content-Range''
                 = Some [''bytes '' @ show_nat a @ ''-'' @ show_nat b @ ''/'' @ show_nat (length B)]
          else res_status r = 200 \<and> res_body r = Bytes B \<and>
               getHeader (res_headers r) ''Content-Range'' = None)"
      by blast
  }
  {
    assume rng: "req_range req = Some (''bytes=-'' @ show_nat a @ ''-'' @ show_nat b)"
    have "res_status ?r = 200 \<and> res_body ?r = Bytes B \<and>
           getHeader (res_headers ?r) ''Content-Range'' = None"
      unfolding rng by (rule cache_hit_negative)
    with p show "\<exists>r. proxyRequest e timeout req (Some B) fetched = Responded r None \<and>
         res_status r = 200 \<and> res_body r = Bytes B \<and>
         getHeader (res_headers r) ''Content-Range'' = None"
      by blast
  }
qed

theorem cache_hit_range_witness:
  "\<exists>r. proxyRequest rejecting_env 30000
          \<lparr>req_method = ''GET'', req_url = ''https://h/a.png'', req_range = Some ''bytes=2-3''\<rparr>
          (Some [10, 20, 30, 40]) (FetchFailed False [])
        = Responded r None
      \<and> res_status r = 206 \<and> res_body r = Bytes [30, 40]
      \<and> getHeader (res_headers r) ''Content-Range'' = Some [''bytes 2-3/4'']"
proof -
  let ?req = "\<lparr>req_method = ''GET'', req_url = ''https://h/a.png'', req_range = Some ''bytes=2-3''\<rparr>"
  have s: "show_nat 2 = ''2''" "show_nat 3 = ''3''" "show_nat (Suc (Suc (Suc (Suc 0)))) = ''4''"
    by code_simp+
  have rng: "req_range ?req = Some (''bytes='' @ show_nat 2 @ ''-'' @ show_nat 3)"
    by (simp add: s)
  have idx: "map ((!) [10, 20, 30, 40 :: byte]) [2..<Suc 3] = [30, 40]"
    by code_simp
  have g: "req_method ?req = ''GET''" and u: "req_url ?req \<noteq> []"
    by simp_all
  from cache_hit_range [OF g u, of 2 3 rejecting_env 30000 "[10, 20, 30, 40]" "FetchFailed False []",
      THEN conjunct1, THEN mp, OF rng]
  show ?thesis
    by (simp add: s idx del: upt_Suc)
qed


section \<open>Properties of the buffered pipeline\<close>













text \<open>
  Four of the five conditions of C4 do guard the cache: whenever the handler calls
  \<^verbatim>\<open>setCacheItem\<close>, the method is GET, the request has no Range header, the upstream
  status is 200, the stored buffer has at most 10 MiB and it is the body sent.
\<close>

lemma cache_store_conditions:
  assumes "proxyRequest e timeout req cachedItem fetched = Responded r (Some (k, b))"
  shows "req_method req = ''GET'' \<and> \<not> truthy (req_range req) \<and> length b \<le> 10485760
     \<and> (\<exists>up. fetched = Fetched up \<and> up_status up = 200) \<and> res_body r = Bytes b"
proof -
  have g: "general_branch e req up ct ce au h = Responded r (Some (k, b)) \<Longrightarrow>
      req_method req = ''GET'' \<and> \<not> truthy (req_range req) \<and> length b \<le> 10485760
      \<and> up_status up = 200 \<and> res_body r = Bytes b" for up ct ce au h
    unfolding general_branch_def Let_def
    by (simp split: if_splits) auto
  have bf: "buffered e req up h = Responded r (Some (k, b)) \<Longrightarrow>
      req_method req = ''GET'' \<and> \<not> truthy (req_range req) \<and> length b \<le> 10485760
      \<and> up_status up = 200 \<and> res_body r = Bytes b" for up h
    unfolding buffered_def Let_def partial_branch_def audio_branch_def m3u8_branch_def vtt_branch_def
    by (auto split: if_splits option.splits dest: g)
  from assms show ?thesis
    unfolding proxyRequest_def Let_def
    by (auto split: if_splits option.splits fetch_result.splits dest: bf)
qed








section \<open>Properties of header synthesis\<close>

lemma clean_delete: "clean (AList.delete ''pragma'' (AList.delete ''cache-control'' h))"
  by (auto simp: clean_def AList.delete_eq)

lemma generate_cached:
  "headerCache (hostname url) = Some h \<Longrightarrow>
     generateHeadersForUrl ts pick url headerCache = Some (h, headerCache)"
  by (simp add: generateHeadersForUrl_def)

lemma generate_result:
  assumes "generateHeadersForUrl ts pick url c = Some (h, c')"
  shows "c' (hostname url) = Some h"
    and "c hn = Some g \<Longrightarrow> c' hn = Some g"
    and "(\<forall>k g. c k = Some g \<longrightarrow> clean g) \<Longrightarrow> clean h \<and> (\<forall>k g. c' k = Some g \<longrightarrow> clean g)"
proof -
  show "c' (hostname url) = Some h"
    using assms by (auto simp: generateHeadersForUrl_def Let_def split: option.splits)
  show "c hn = Some g \<Longrightarrow> c' hn = Some g"
    using assms by (auto simp: generateHeadersForUrl_def Let_def split: option.splits)
  show "(\<forall>k g. c k = Some g \<longrightarrow> clean g) \<Longrightarrow> clean h \<and> (\<forall>k g. c' k = Some g \<longrightarrow> clean g)"
    using assms clean_delete
    by (auto simp: generateHeadersForUrl_def Let_def split: option.splits if_splits)
qed

lemma generate_throws:
  assumes "generateHeadersForUrl ts pick url c = None"
  shows "ts = []" and "c (hostname url) = None"
  using assms
  by (auto simp: generateHeadersForUrl_def findTemplateForDomain_def Let_def
      split: option.splits if_splits)

lemma generate_empty_registry:
  "generateHeadersForUrl [] pick url c =
     (case c (hostname url) of Some h \<Rightarrow> Some (h, c) | None \<Rightarrow> None)"
  by (simp add: generateHeadersForUrl_def findTemplateForDomain_def split: option.splits)

lemma length_run_calls [simp]: "length (run_calls ts calls c) = length calls"
  by (induction calls arbitrary: c) (auto split: option.splits)

text \<open>Once a hostname is in the cache, every call for it returns the cached headers.\<close>

lemma run_calls_cached:
  assumes "c hn = Some h" and "j < length calls" and "hostname (snd (calls ! j)) = hn"
  shows "run_calls ts calls c ! j = Some h"
  using assms
proof (induction calls arbitrary: c j)
  case Nil
  then show ?case by simp
next
  case (Cons call calls)
  obtain pick url where call: "call = (pick, url)" by (cases call)
  show ?case
  proof (cases j)
    case 0
    with Cons.prems call show ?thesis
      by (simp add: generate_cached)
  next
    case (Suc j')
    show ?thesis
    proof (cases "generateHeadersForUrl ts pick url c")
      case None
      with Cons.IH [of c j'] Cons.prems Suc call show ?thesis by simp
    next
      case (Some res)
      obtain g c' where res: "res = (g, c')" by (cases res)
      have "c' hn = Some h"
        using generate_result(2) [OF Some [unfolded res]] Cons.prems(1) by simp
      with Cons.IH [of c' j'] Cons.prems Suc call Some res show ?thesis by simp
    qed
  qed
qed

text \<open>With an empty registry a hostname that is not cached never gets cached.\<close>

lemma run_calls_throws:
  assumes "c hn = None" and "j < length calls" and "hostname (snd (calls ! j)) = hn"
  shows "run_calls [] calls c ! j = None"
  using assms
proof (induction calls arbitrary: j)
  case Nil
  then show ?case by simp
next
  case (Cons call calls)
  obtain pick url where call: "call = (pick, url)" by (cases call)
  show ?case
  proof (cases j)
    case 0
    with Cons.prems call show ?thesis
      by (simp add: generate_empty_registry)
  next
    case (Suc j')
    with Cons.IH [of j'] Cons.prems call show ?thesis
      by (simp add: generate_empty_registry split: option.splits)
  qed
qed

lemma run_calls_same_host:
  assumes "i < j" and "j < length calls"
    and "hostname (snd (calls ! i)) = hostname (snd (calls ! j))"
  shows "run_calls ts calls c ! j = run_calls ts calls c ! i"
  using assms
proof (induction calls arbitrary: c i j)
  case Nil
  then show ?case by simp
next
  case (Cons call calls)
  obtain pick url where call: "call = (pick, url)" by (cases call)
  from Cons.prems obtain j' where j: "j = Suc j'" by (cases j) auto
  show ?case
  proof (cases i)
    case 0
    then have hn: "hostname (snd (calls ! j')) = hostname url"
      using Cons.prems call j by simp
    have j': "j' < length calls" using Cons.prems j by simp
    show ?thesis
    proof (cases "generateHeadersForUrl ts pick url c")
      case None
      have "run_calls [] calls c ! j' = None"
        using generate_throws(2) [OF None] j' hn by (rule run_calls_throws)
      with None generate_throws(1) [OF None] 0 j call show ?thesis by simp
    next
      case (Some res)
      obtain g c' where res: "res = (g, c')" by (cases res)
      have "run_calls ts calls c' ! j' = Some g"
        using generate_result(1) [OF Some [unfolded res]] j' hn by (rule run_calls_cached)
      with Some res 0 j call show ?thesis by simp
    qed
  next
    case (Suc i')
    have ih: "run_calls ts calls c0 ! j' = run_calls ts calls c0 ! i'" for c0
      using Cons.IH [of i' j' c0] Cons.prems Suc j by simp
    show ?thesis
      using ih Suc j call by (simp split: option.splits)
  qed
qed

lemma run_calls_clean:
  assumes "\<forall>k g. c k = Some g \<longrightarrow> clean g" and "i < length calls"
    and "run_calls ts calls c ! i = Some h"
  shows "clean h"
  using assms
proof (induction calls arbitrary: c i)
  case Nil
  then show ?case by simp
next
  case (Cons call calls)
  obtain pick url where call: "call = (pick, url)" by (cases call)
  show ?case
  proof (cases "generateHeadersForUrl ts pick url c")
    case None
    with Cons.prems call obtain i' where "i = Suc i'"
      by (cases i) auto
    with Cons.IH [of c i'] Cons.prems None call show ?thesis by simp
  next
    case (Some res)
    obtain g c' where res: "res = (g, c')" by (cases res)
    note inv = generate_result(3) [OF Some [unfolded res] Cons.prems(1)]
    show ?thesis
    proof (cases i)
      case 0
      with Cons.prems Some res call inv show ?thesis by simp
    next
      case (Suc i')
      with Cons.IH [of c' i'] Cons.prems Some res call inv show ?thesis by simp
    qed
  qed
qed

text \<open>
  C10. In a run of the process from the empty header cache, whatever the registry, the
  URLs and the random picks: a call returns exactly what any earlier call for the same
  hostname returned (so the headers of the first call for a hostname, with the user
  agent drawn then, are returned ever after), and no returned header map has the key
  \<^verbatim>\<open>cache-control\<close> or \<^verbatim>\<open>pragma\<close>.
\<close>

theorem generateHeadersForUrl_deterministic:
  "(\<forall>i j. i < j \<and> j < length calls
        \<and> hostname (snd (calls ! i)) = hostname (snd (calls ! j))
      \<longrightarrow> run_calls domainTemplates calls Map.empty ! j
            = run_calls domainTemplates calls Map.empty ! i)
   \<and> (\<forall>i h. i < length calls \<and> run_calls domainTemplates calls Map.empty ! i = Some h
      \<longrightarrow> ''cache-control'' \<notin> fst ` set h \<and> ''pragma'' \<notin> fst ` set h)"
proof (intro conjI allI impI)
  fix i j
  assume "i < j \<and> j < length calls \<and> hostname (snd (calls ! i)) = hostname (snd (calls ! j))"
  then show "run_calls domainTemplates calls Map.empty ! j
            = run_calls domainTemplates calls Map.empty ! i"
    using run_calls_same_host [of i j calls domainTemplates Map.empty] by simp
next
  fix i h
  assume a: "i < length calls \<and> run_calls domainTemplates calls Map.empty ! i = Some h"
  have "clean h"
    by (rule run_calls_clean [of Map.empty i calls domainTemplates h]) (use a in simp_all)
  then show "''cache-control'' \<notin> fst ` set h" and "''pragma'' \<notin> fst ` set h"
    by (simp_all add: clean_def)
qed


theorem generateHeadersForUrl_deterministic_witness:
  "run_calls sample_templates
     [(2, \<lparr>protocol = ''https:'', host = ''cdn.frostbite27.pro'', hostname = ''cdn.frostbite27.pro''\<rparr>),
      (3, \<lparr>protocol = ''http:'', host = ''cdn.frostbite27.pro:8080'', hostname = ''cdn.frostbite27.pro''\<rparr>)]
     Map.empty ! 1
   = Some [(''user-agent'', ''Mozilla/5.0 (X11; Linux x86_64) AppleWebKit/537.36 Chrome/119.0.0.0 Safari/537.36''),
           (''accept'', ''*/*''),
           (''accept-language'', ''en-US,en;q=0.5''),
           (''sec-fetch-dest'', ''empty''),
           (''sec-fetch-mode'', ''cors''),
           (''sec-fetch-site'', ''cross-site''),
           (''origin'', ''https://megacloud.blog''),
           (''referer'', ''https://megacloud.blog/'')]"
proof -
  let ?u1 = "\<lparr>protocol = ''https:'', host = ''cdn.frostbite27.pro'', hostname = ''cdn.frostbite27.pro''\<rparr>"
  let ?u2 = "\<lparr>protocol = ''http:'', host = ''cdn.frostbite27.pro:8080'', hostname = ''cdn.frostbite27.pro''\<rparr>"
  let ?calls = "[(2, ?u1), (3, ?u2)]"
  have pre: "(0::nat) < 1 \<and> 1 < length ?calls
      \<and> hostname (snd (?calls ! 0)) = hostname (snd (?calls ! 1))"
    by simp
  have m: "endsWith (toLowerCase ''cdn.frostbite27.pro'') ''frostbite27.pro''"
    by code_simp
  have ua: "getRandomUserAgent 2 = ''Mozilla/5.0 (X11; Linux x86_64) AppleWebKit/537.36 Chrome/119.0.0.0 Safari/537.36''"
    by (simp add: getRandomUserAgent_def userAgents_def)
  have first: "run_calls sample_templates ?calls Map.empty ! 0
     = Some [(''user-agent'', ''Mozilla/5.0 (X11; Linux x86_64) AppleWebKit/537.36 Chrome/119.0.0.0 Safari/537.36''),
           (''accept'', ''*/*''),
           (''accept-language'', ''en-US,en;q=0.5''),
           (''sec-fetch-dest'', ''empty''),
           (''sec-fetch-mode'', ''cors''),
           (''sec-fetch-site'', ''cross-site''),
           (''origin'', ''https://megacloud.blog''),
           (''referer'', ''https://megacloud.blog/'')]"
    by (simp add: generateHeadersForUrl_def findTemplateForDomain_def sample_templates_def
        m ua assign_def Let_def)
  from generateHeadersForUrl_deterministic [of ?calls sample_templates, THEN conjunct1, rule_format, OF pre]
  show ?thesis
    unfolding first .
qed


section \<open>Properties of the subtitle rewriter\<close>

lemma rewrite_images_fails:
  assumes "imageUrl \<in> set urls" and "proxy_url rt options u imageUrl = Inl e"
  shows "\<exists>e'. rewrite_images rt options u urls processed = Inl e'"
  using assms
proof (induction urls arbitrary: processed)
  case Nil
  then show ?case by simp
next
  case (Cons x urls)
  show ?case
  proof (cases "proxy_url rt options u x")
    case (Inl e0)
    then show ?thesis by simp
  next
    case (Inr p)
    with Cons.prems have "imageUrl \<in> set urls" by auto
    from Cons.IH [OF this Cons.prems(2)] Inr show ?thesis by simp
  qed
qed

lemma set_unique: "set (unique xs) = set xs"
  by (simp add: unique_def)

text \<open>
  C8. For every text, option set and runtime the subtitle rewriter returns the text it
  was given whenever an error is raised while it works: when the target URL does not
  parse, when a matched image reference cannot be resolved or encoded, and in general
  whenever the body of its \<^verbatim>\<open>try\<close> block raises. A text in which the image pattern
  matches nothing is returned unchanged as well.
\<close>

theorem processVttContent_errors:
  "(vtt_new_URL rt (targetUrl options) = None
      \<longrightarrow> processVttContent rt content options = content)
   \<and> (\<forall>u imageUrl e. vtt_new_URL rt (targetUrl options) = Some u
          \<and> imageUrl \<in> set (image_matches None content)
          \<and> proxy_url rt options u imageUrl = Inl e
      \<longrightarrow> processVttContent rt content options = content)
   \<and> (\<forall>e. vtt_try rt content options = Inl e
      \<longrightarrow> processVttContent rt content options = content)
   \<and> (image_matches None content = []
      \<longrightarrow> processVttContent rt content options = content)"
proof (intro conjI allI impI)
  assume "vtt_new_URL rt (targetUrl options) = None"
  then show "processVttContent rt content options = content"
    by (simp add: processVttContent_def vtt_try_def)
next
  fix u imageUrl e
  assume a: "vtt_new_URL rt (targetUrl options) = Some u
          \<and> imageUrl \<in> set (image_matches None content)
          \<and> proxy_url rt options u imageUrl = Inl e"
  then have ne: "image_matches None content \<noteq> []" by auto
  from a have "imageUrl \<in> set (unique (image_matches None content))"
    by (simp add: set_unique)
  with a obtain e' where
    "rewrite_images rt options u (unique (image_matches None content)) content = Inl e'"
    using rewrite_images_fails by blast
  with a ne show "processVttContent rt content options = content"
    by (simp add: processVttContent_def vtt_try_def Let_def)
next
  fix e
  assume "vtt_try rt content options = Inl e"
  then show "processVttContent rt content options = content"
    by (simp add: processVttContent_def)
next
  assume "image_matches None content = []"
  then show "processVttContent rt content options = content"
    by (simp add: processVttContent_def vtt_try_def Let_def split: option.splits)
qed

theorem processVttContent_errors_witness:
  "processVttContent sample_runtime ''WEBVTT t1.jpg''
     \<lparr>proxyBaseUrl = ''/'', targetUrl = ''nonsense'', urlParamName = None\<rparr> = ''WEBVTT t1.jpg''
   \<and> processVttContent sample_runtime ''WEBVTT no image here''
     \<lparr>proxyBaseUrl = ''/'', targetUrl = ''https://cdn.example/a.m3u8'', urlParamName = None\<rparr>
       = ''WEBVTT no image here''
   \<and> processVttContent (sample_runtime\<lparr>vtt_resolve := (\<lambda>ref base. None)\<rparr>) ''WEBVTT t1.jpg''
     \<lparr>proxyBaseUrl = ''/'', targetUrl = ''ftp://h/x'', urlParamName = None\<rparr> = ''WEBVTT t1.jpg''"
proof (intro conjI)
  let ?o = "\<lparr>proxyBaseUrl = ''/'', targetUrl = ''nonsense'', urlParamName = None\<rparr>"
  have "vtt_new_URL sample_runtime (targetUrl ?o) = None"
    by (simp add: sample_runtime_def sample_parser_def)
  with processVttContent_errors [of sample_runtime ?o "''WEBVTT t1.jpg''", THEN conjunct1]
  show "processVttContent sample_runtime ''WEBVTT t1.jpg'' ?o = ''WEBVTT t1.jpg''"
    by (rule mp)
next
  let ?o = "\<lparr>proxyBaseUrl = ''/'', targetUrl = ''https://cdn.example/a.m3u8'', urlParamName = None\<rparr>"
  have "image_matches None ''WEBVTT no image here'' = []"
    by code_simp
  with processVttContent_errors [of sample_runtime ?o "''WEBVTT no image here''",
      THEN conjunct2, THEN conjunct2, THEN conjunct2]
  show "processVttContent sample_runtime ''WEBVTT no image here'' ?o = ''WEBVTT no image here''"
    by (rule mp)
next
  let ?rt = "sample_runtime\<lparr>vtt_resolve := (\<lambda>ref base. None)\<rparr>"
  let ?o = "\<lparr>proxyBaseUrl = ''/'', targetUrl = ''ftp://h/x'', urlParamName = None\<rparr>"
  let ?u = "\<lparr>protocol = ''ftp:'', host = ''h'', hostname = ''h''\<rparr>"
  have m: "image_matches None ''WEBVTT t1.jpg'' = [''t1.jpg'']"
    by code_simp
  have p: "proxy_url ?rt ?o ?u ''t1.jpg'' = Inl InvalidImageUrl"
    by (simp add: proxy_url_def absolute_url_def startsWith_def sample_runtime_def)
  have "vtt_new_URL ?rt (targetUrl ?o) = Some ?u
          \<and> ''t1.jpg'' \<in> set (image_matches None ''WEBVTT t1.jpg'')
          \<and> proxy_url ?rt ?o ?u ''t1.jpg'' = Inl InvalidImageUrl"
  proof (intro conjI)
    show "vtt_new_URL ?rt (targetUrl ?o) = Some ?u"
      by (simp add: sample_runtime_def sample_parser_def)
    show "''t1.jpg'' \<in> set (image_matches None ''WEBVTT t1.jpg'')"
      unfolding m by simp
    show "proxy_url ?rt ?o ?u ''t1.jpg'' = Inl InvalidImageUrl"
      by (rule p)
  qed
  with processVttContent_errors [of ?rt ?o "''WEBVTT t1.jpg''",
      THEN conjunct2, THEN conjunct1, rule_format]
  show "processVttContent ?rt ''WEBVTT t1.jpg'' ?o = ''WEBVTT t1.jpg''"
    by blast
qed


end
